theory Spec2Isabelle
  imports Main "HOL-Library.Sublist"
begin

section \<open>Python values, dictionaries and exceptions\<close>

text \<open>
  The build orchestrator (\<^verbatim>\<open>biothings/databuild/builder.py\<close>) keeps its state in Python
  dictionaries stored in a document collection. A stored value is \<^verbatim>\<open>None\<close>, a string, a
  list of strings, a number or a statistics dictionary (name to count).
\<close>

datatype val =
    VNone
  | VStr string
  | VStrs "string list"
  | VNum int
  | VStats "(string \<times> int) list"

text \<open>
  A dictionary is an association list with one entry per key, in insertion order.
  \<open>dict_set\<close> is \<^verbatim>\<open>d[k] = v\<close>, \<open>dict_get\<close> is \<^verbatim>\<open>d.get(k)\<close> (with \<open>None\<close> for a missing key)
  and \<open>dict_update\<close> is \<^verbatim>\<open>d.update(other)\<close>.
\<close>

fun dict_set :: "(string \<times> 'v) list \<Rightarrow> string \<Rightarrow> 'v \<Rightarrow> (string \<times> 'v) list" where
  "dict_set [] k v = [(k, v)]"
| "dict_set ((k', v') # d) k v = (if k' = k then (k, v) # d else (k', v') # dict_set d k v)"

definition dict_get :: "(string \<times> 'v) list \<Rightarrow> string \<Rightarrow> 'v option" where
  "dict_get d k = map_of d k"

definition dict_update :: "(string \<times> 'v) list \<Rightarrow> (string \<times> 'v) list \<Rightarrow> (string \<times> 'v) list" where
  "dict_update d other = fold (\<lambda>kv acc. dict_set acc (fst kv) (snd kv)) other d"

type_synonym dict = "(string \<times> val) list"

text \<open>Python truthiness (\<^verbatim>\<open>if x:\<close>, \<^verbatim>\<open>not x\<close>) of a stored value.\<close>

fun truthy :: "val \<Rightarrow> bool" where
  "truthy VNone = False"
| "truthy (VStr s) = (s \<noteq> [])"
| "truthy (VStrs l) = (l \<noteq> [])"
| "truthy (VNum n) = (n \<noteq> 0)"
| "truthy (VStats d) = (d \<noteq> [])"

text \<open>\<^verbatim>\<open>d.get(k)\<close> as a value: a missing key reads as \<^verbatim>\<open>None\<close>.\<close>

definition get_val :: "dict \<Rightarrow> string \<Rightarrow> val" where
  "get_val d k = (case dict_get d k of None \<Rightarrow> VNone | Some v \<Rightarrow> v)"

text \<open>
  The reasons of a \<^verbatim>\<open>ResumeException\<close>: one per message of \<^verbatim>\<open>merge_resume\<close>, with the values
  formatted into the message.
\<close>

datatype resume_reason =
    NoBuildBound val
  | NoSources
  | NoStep
  | StepNotInSources val val
  | NoTargetName
  | NothingToResume

text \<open>
  Exceptions. \<open>BuilderException\<close> carries the identifier type that has no mapper (the
  one message modelled). \<open>External\<close> stands for an exception derived from \<^verbatim>\<open>Exception\<close> that
  a collaborator (a store, a mapper) raises, told apart by its description. \<^verbatim>\<open>SystemExit\<close>
  and \<^verbatim>\<open>GeneratorExit\<close> derive from \<^verbatim>\<open>BaseException\<close> only, as \<^verbatim>\<open>KeyboardInterrupt\<close> does.
\<close>

datatype error =
    ResumeException resume_reason
  | BuilderException "string option"
  | AssertionError
  | KeyError string
  | IndexError
  | TypeError
  | AttributeError
  | NotImplementedError
  | KeyboardInterrupt
  | RecursionError
  | SystemExit
  | GeneratorExit
  | External string

text \<open>
  What \<^verbatim>\<open>except (KeyboardInterrupt, Exception)\<close> catches: everything but the two other
  exceptions that derive from \<^verbatim>\<open>BaseException\<close> alone.
\<close>

fun caught :: "error \<Rightarrow> bool" where
  "caught SystemExit = False"
| "caught GeneratorExit = False"
| "caught _ = True"

type_synonym doc = "(string \<times> val) list"

section \<open>Collaborators, the builder and the world\<close>

text \<open>
  Messages given to the logger, one constructor per logging call of the source.
\<close>

datatype logmsg =
    RegisteredStatus dict
  | InitializingMapper "string option"
  | FoundMapper "string option" string
  | MergingSources "string list"
  | UpdateOnly string
  | Traceback error
  | Validating
  | CountOK int
  | CountWarning int int
  | ResumingBuild dict

text \<open>
  Every call on a collaborator (target store, source store, mapper, clock, logger) is an
  event; the trace of events is the observable behaviour of a run. \<open>FindOne\<close>,
  \<open>ReplaceOne\<close>, \<open>Push\<close> and \<open>PopFirst\<close> are the calls on the \<^verbatim>\<open>src_build\<close> collection
  (\<^verbatim>\<open>find_one\<close>, \<^verbatim>\<open>replace_one\<close>, and \<^verbatim>\<open>update\<close> with \<^verbatim>\<open>$push\<close> or \<^verbatim>\<open>$pop\<close>).
\<close>

datatype event =
    StartTimer
  | Drop
  | Prepare
  | SetTargetName val
  | PostMerge
  | Finalize
  | Count
  | GetSrcVersions
  | ValidateSources val
  | GetSrcMasterDocs
  | NeedLoad "string option"
  | Load "string option"
  | Feed string nat
  | Process "string option" "doc list"
  | Update "doc list" bool
  | FindOne
  | ReplaceOne
  | Push dict
  | PopFirst
  | LogInfo logmsg
  | LogDebug logmsg
  | LogError logmsg

text \<open>
  The collaborators are out of scope for the source and are parameters here. Each is a
  function of the trace so far, so that its answer may depend on everything the
  orchestrator has done before the call. A call that may raise returns \<open>Some e\<close> or
  \<open>Inl e\<close>. \<open>feed\<close> is \<^verbatim>\<open>doc_feeder\<close>: the batches it yields and the exception that ends
  it, if any. \<open>set_rank\<close> fixes the iteration order of a Python set, which the language
  leaves open: elements come out by increasing rank. The three \<open>store_\<close> fields say
  whether a call on the \<^verbatim>\<open>src_build\<close> collection raises; a call that raises leaves the
  document as it was.
\<close>

record env =
  now :: "event list \<Rightarrow> val"
  getpid :: val
  timesofar :: "event list \<Rightarrow> val"
  time_in_s :: "event list \<Rightarrow> val"
  target_backend_name :: val
  target_name :: "event list \<Rightarrow> val"
  target_drop :: "event list \<Rightarrow> error option"
  target_prepare :: "event list \<Rightarrow> error option"
  target_set_target_name :: "event list \<Rightarrow> val \<Rightarrow> error option"
  target_post_merge :: "event list \<Rightarrow> error option"
  target_finalize :: "event list \<Rightarrow> error option"
  target_count :: "event list \<Rightarrow> error + int"
  target_update :: "event list \<Rightarrow> doc list \<Rightarrow> bool \<Rightarrow> error + int"
  validate_sources :: "event list \<Rightarrow> val \<Rightarrow> error option"
  get_src_versions :: "event list \<Rightarrow> error + val"
  get_src_master_docs :: "event list \<Rightarrow> error + (string \<times> string option) list"
  need_load :: "event list \<Rightarrow> string option \<Rightarrow> error + bool"
  load :: "event list \<Rightarrow> string option \<Rightarrow> error option"
  process :: "event list \<Rightarrow> string option \<Rightarrow> doc list \<Rightarrow> error + doc list"
  feed :: "event list \<Rightarrow> string \<Rightarrow> nat \<Rightarrow> doc list list \<times> error option"
  repr :: "error \<Rightarrow> string"
  set_rank :: "event list \<Rightarrow> string \<Rightarrow> nat"
  store_find_one :: "event list \<Rightarrow> error option"
  store_replace_one :: "event list \<Rightarrow> error option"
  store_update :: "event list \<Rightarrow> event \<Rightarrow> error option"

text \<open>
  The attributes of a \<^verbatim>\<open>DataBuilder\<close> that the modelled methods read.
  \<open>build_config\<close> is the configuration fetched at construction (\<open>None\<close> when the
  source store returned \<^verbatim>\<open>None\<close>, which fails the assertion of \<^verbatim>\<open>register_status\<close>), as
  a dictionary from its list-valued keys to source lists. Its \<^verbatim>\<open>_id\<close>, which every document
  of the store has, is not kept: a fetched configuration is a non-empty dictionary, and
  \<^verbatim>\<open>self._build_config['_id']\<close> fails only on \<open>None\<close>, with \<^verbatim>\<open>TypeError\<close>. \<open>id_mappers\<close> holds the names
  under which mappers are registered (a mapper's name may be \<^verbatim>\<open>None\<close>).
  \<open>self_stats\<close> is the attribute \<^verbatim>\<open>_stats\<close>, which only \<^verbatim>\<open>build_index2\<close> assigns: \<open>None\<close>
  while the attribute does not exist.
\<close>

record builder =
  build_config :: "(string \<times> string list) list option"
  doc_root_key :: "string option"
  max_build_status :: int
  parallel_engine :: bool
  logfile :: val
  id_mappers :: "string option list"
  self_stats :: "(string \<times> int) list option"

text \<open>
  The world: the configuration document persisted in the \<^verbatim>\<open>src_build\<close> collection (its
  \<^verbatim>\<open>name\<close> and its \<^verbatim>\<open>build\<close> history, each absent or present) and the trace. The
  document itself exists and has the \<^verbatim>\<open>_id\<close> of the builder's configuration.
\<close>

record world =
  cfg_name :: "val option"
  cfg_build :: "dict list option"
  trace :: "event list"

definition emit :: "event \<Rightarrow> world \<Rightarrow> world" where
  "emit e w = w\<lparr>trace := trace w @ [e]\<rparr>"

section \<open>The Build Status Ledger: \<^verbatim>\<open>register_status\<close>\<close>

text \<open>
  MongoDB's \<^verbatim>\<open>$push\<close> appends to the array (creating it when the field is missing);
  \<^verbatim>\<open>$pop\<close> with \<open>-1\<close> removes the first element (nothing when the array is empty or
  missing).
\<close>

definition mongo_push :: "dict \<Rightarrow> world \<Rightarrow> world" where
  "mongo_push r w =
     w\<lparr>cfg_build := Some (case cfg_build w of None \<Rightarrow> [r] | Some h \<Rightarrow> h @ [r])\<rparr>"

definition mongo_pop_first :: "world \<Rightarrow> world" where
  "mongo_pop_first w = w\<lparr>cfg_build := map_option tl (cfg_build w)\<rparr>"

text \<open>
  \<^verbatim>\<open>for _ in range(howmany): src_build.update(..., {"$pop": {'build': -1}})\<close>, stopping at
  the first call that raises.
\<close>

fun pop_loop :: "env \<Rightarrow> nat \<Rightarrow> world \<Rightarrow> error option \<times> world" where
  "pop_loop ev 0 w = (None, w)"
| "pop_loop ev (Suc n) w =
     (case store_update ev (trace w) PopFirst of
        Some e \<Rightarrow> (Some e, emit PopFirst w)
      | None \<Rightarrow> pop_loop ev n (mongo_pop_first (emit PopFirst w)))"

text \<open>The dictionary \<^verbatim>\<open>build_info\<close> that \<^verbatim>\<open>register_status\<close> builds first (lines 73-86).\<close>

definition build_info :: "env \<Rightarrow> builder \<Rightarrow> string \<Rightarrow> bool \<Rightarrow> event list \<Rightarrow> dict" where
  "build_info ev b status transient tr =
     [(''status'', VStr status),
      (''started_at'', now ev tr),
      (''logfile'', logfile b),
      (''target_backend'', target_backend_name ev),
      (''target_name'', target_name ev tr)]
     @ (if transient then [(''pid'', getpid ev)]
        else [(''time'', timesofar ev tr), (''time_in_s'', time_in_s ev tr)])"

text \<open>
  Lines 92-95: with a \<^verbatim>\<open>build\<close> keyword among \<^verbatim>\<open>extra\<close>, the payload is merged into
  \<^verbatim>\<open>build_info\<close>, \<^verbatim>\<open>build_info\<close> is merged into the last record of the history that was
  read, and the document is written back. \<^verbatim>\<open>_cfg["build"]\<close> raises \<^verbatim>\<open>KeyError\<close> without the
  field and \<^verbatim>\<open>[-1]\<close> raises \<^verbatim>\<open>IndexError\<close> on an empty history.
\<close>

definition merge_extra ::
  "env \<Rightarrow> dict \<Rightarrow> dict option \<Rightarrow> world \<Rightarrow> (error + dict) \<times> world" where
  "merge_extra ev info extra_build w =
     (case extra_build of
        None \<Rightarrow> (Inr info, w)
      | Some xb \<Rightarrow>
          (let info' = dict_update info xb in
           case cfg_build w of
             None \<Rightarrow> (Inl (KeyError ''build''), w)
           | Some h \<Rightarrow>
               if h = [] then (Inl IndexError, w)
               else
                 (case store_replace_one ev (trace w) of
                    Some e \<Rightarrow> (Inl e, emit ReplaceOne w)
                  | None \<Rightarrow>
                      (Inr info',
                       (emit ReplaceOne w)
                         \<lparr>cfg_build := Some (butlast h @ [dict_update (last h) info'])\<rparr>))))"

text \<open>
  Lines 97-103: with \<^verbatim>\<open>init\<close>, \<^verbatim>\<open>build_info\<close> is pushed; then the length of the history
  \<^emph>\<open>as read at line 91\<close> (before the push) is compared with \<^verbatim>\<open>max_build_status\<close> and the
  excess is popped from the front.
\<close>

definition push_and_trim ::
  "env \<Rightarrow> builder \<Rightarrow> dict list option \<Rightarrow> dict \<Rightarrow> world \<Rightarrow> error option \<times> world" where
  "push_and_trim ev b read_build info w =
     (case store_update ev (trace w) (Push info) of
        Some e \<Rightarrow> (Some e, emit (Push info) w)
      | None \<Rightarrow>
          (let w1 = mongo_push info (emit (Push info) w) in
           case read_build of
             None \<Rightarrow> (Some (KeyError ''build''), w1)
           | Some h \<Rightarrow>
               if int (length h) > max_build_status b
               then pop_loop ev (nat (int (length h) - max_build_status b)) w1
               else (None, w1)))"

text \<open>
  \<^verbatim>\<open>register_status(status, transient, init, **extra)\<close>, lines 69-103. Only the keyword
  \<^verbatim>\<open>build\<close> of \<^verbatim>\<open>extra\<close> is read, so \<open>extra_build\<close> is that payload, if given. The result
  is the exception raised, if any, and the world after the call.
\<close>

definition register_status ::
  "env \<Rightarrow> builder \<Rightarrow> string \<Rightarrow> bool \<Rightarrow> bool \<Rightarrow> dict option \<Rightarrow> world \<Rightarrow> error option \<times> world" where
  "register_status ev b status transient init extra_build w =
     (case build_config b of
        None \<Rightarrow> (Some AssertionError, w)
      | Some _ \<Rightarrow>
          (let info = build_info ev b status transient (trace w);
               w1 = emit (LogInfo (RegisteredStatus info)) w
           in case store_find_one ev (trace w1) of
                Some e \<Rightarrow> (Some e, emit FindOne w1)
              | None \<Rightarrow>
                  (let w2 = emit FindOne w1; read_build = cfg_build w2
                   in case merge_extra ev info extra_build w2 of
                        (Inl e, w3) \<Rightarrow> (Some e, w3)
                      | (Inr info', w3) \<Rightarrow>
                          if init then push_and_trim ev b read_build info' w3
                          else (None, w3))))"

section \<open>The per-source merge\<close>

text \<open>\<^verbatim>\<open>get_root_document_sources\<close>, line 113: \<^verbatim>\<open>self._build_config.get(self.doc_root_key, [])\<close>.\<close>

definition get_root_document_sources :: "builder \<Rightarrow> error + string list" where
  "get_root_document_sources b =
     (case build_config b of
        None \<Rightarrow> Inl AttributeError
      | Some c \<Rightarrow>
          Inr (case doc_root_key b of
                 None \<Rightarrow> []
               | Some k \<Rightarrow> (case dict_get c k of None \<Rightarrow> [] | Some l \<Rightarrow> l)))"

definition key_name :: "string option \<Rightarrow> string" where
  "key_name k = (case k of None \<Rightarrow> ''None'' | Some s \<Rightarrow> s)"

text \<open>\<^verbatim>\<open>init_mapper\<close>, lines 105-108.\<close>

definition init_mapper :: "env \<Rightarrow> builder \<Rightarrow> string option \<Rightarrow> world \<Rightarrow> error option \<times> world" where
  "init_mapper ev b id_type w =
     (if id_type \<notin> set (id_mappers b) then (Some (KeyError (key_name id_type)), w)
      else
        (let w1 = emit (NeedLoad id_type) w in
         case need_load ev (trace w) id_type of
           Inl e \<Rightarrow> (Some e, w1)
         | Inr False \<Rightarrow> (None, w1)
         | Inr True \<Rightarrow>
             (let w2 = emit (LogInfo (InitializingMapper id_type)) w1
              in (load ev (trace w2) id_type, emit (Load id_type) w2))))"

text \<open>
  \<^verbatim>\<open>get_mapper_for_source\<close>, lines 249-257: a \<^verbatim>\<open>KeyError\<close> raised inside the \<^verbatim>\<open>try\<close> becomes
  a \<^verbatim>\<open>BuilderException\<close>; the lookup of the source's master document is outside it.
\<close>

definition key_error_to_builder :: "string option \<Rightarrow> error \<Rightarrow> error" where
  "key_error_to_builder id_type e = (case e of KeyError _ \<Rightarrow> BuilderException id_type | _ \<Rightarrow> e)"

definition get_mapper_for_source ::
  "env \<Rightarrow> builder \<Rightarrow> string \<Rightarrow> world \<Rightarrow> (error + string option) \<times> world" where
  "get_mapper_for_source ev b src w =
     (let w1 = emit GetSrcMasterDocs w in
      case get_src_master_docs ev (trace w) of
        Inl e \<Rightarrow> (Inl e, w1)
      | Inr master \<Rightarrow>
          (case dict_get master src of
             None \<Rightarrow> (Inl (KeyError src), w1)
           | Some id_type \<Rightarrow>
               (case init_mapper ev b id_type w1 of
                  (Some e, w2) \<Rightarrow> (Inl (key_error_to_builder id_type e), w2)
                | (None, w2) \<Rightarrow> (Inr id_type, emit (LogInfo (FoundMapper id_type src)) w2))))"

text \<open>
  Line 301: \<^verbatim>\<open>upsert = (self.doc_root_key is None) or src_name in self.get_root_document_sources()\<close>.
\<close>

definition upsert_mode :: "builder \<Rightarrow> string \<Rightarrow> error + bool" where
  "upsert_mode b src =
     (if doc_root_key b = None then Inr True
      else case get_root_document_sources b of
             Inl e \<Rightarrow> Inl e
           | Inr roots \<Rightarrow> Inr (src \<in> set roots))"

text \<open>
  The batch loop of \<^verbatim>\<open>merge_source\<close>, lines 304-309: the mapper processes the batch, the
  cleaning step is the identity, and the target store's \<^verbatim>\<open>update\<close> returns the count added
  to \<^verbatim>\<open>cnt\<close>.
\<close>

definition clean_document_to_merge :: "doc \<Rightarrow> doc" where
  "clean_document_to_merge d = d"

fun update_batches ::
  "env \<Rightarrow> string option \<Rightarrow> bool \<Rightarrow> doc list list \<Rightarrow> int \<Rightarrow> world \<Rightarrow> (error + int) \<times> world" where
  "update_batches ev mapper upsert [] cnt w = (Inr cnt, w)"
| "update_batches ev mapper upsert (docs # rest) cnt w =
     (let w1 = emit (Process mapper docs) w in
      case process ev (trace w) mapper docs of
        Inl e \<Rightarrow> (Inl e, w1)
      | Inr docs' \<Rightarrow>
          (let newdocs = map clean_document_to_merge docs';
               w2 = emit (Update newdocs upsert) w1
           in case target_update ev (trace w1) newdocs upsert of
                Inl e \<Rightarrow> (Inl e, w2)
              | Inr n \<Rightarrow> update_batches ev mapper upsert rest (cnt + n) w2))"

text \<open>\<^verbatim>\<open>merge_source(src_name, batch_size)\<close>, lines 291-311.\<close>

definition merge_source ::
  "env \<Rightarrow> builder \<Rightarrow> string \<Rightarrow> nat \<Rightarrow> world \<Rightarrow> (error + (string \<times> int) list) \<times> world" where
  "merge_source ev b src batch_size w =
     (case get_mapper_for_source ev b src w of
        (Inl e, w1) \<Rightarrow> (Inl e, w1)
      | (Inr mapper, w1) \<Rightarrow>
          (case upsert_mode b src of
             Inl e \<Rightarrow> (Inl e, w1)
           | Inr upsert \<Rightarrow>
               (let w2 = (if upsert then w1 else emit (LogDebug (UpdateOnly src)) w1);
                    fed = feed ev (trace w2) src batch_size;
                    w3 = emit (Feed src batch_size) w2
                in case update_batches ev mapper upsert (fst fed) 0 w3 of
                     (Inl e, w4) \<Rightarrow> (Inl e, w4)
                   | (Inr cnt, w4) \<Rightarrow>
                       (case snd fed of
                          Some e \<Rightarrow> (Inl e, w4)
                        | None \<Rightarrow> (Inr [(''total_'' @ src, cnt)], w4)))))"

section \<open>The per-source loop: \<^verbatim>\<open>merge_sources\<close>\<close>

text \<open>Decimal digits of a number, for the progress string \<^verbatim>\<open>"%s/%s" % (i+1, len(source_names))\<close>.\<close>

definition digit_char :: "nat \<Rightarrow> char" where
  "digit_char d = char_of (d + 48)"

fun decimal :: "nat \<Rightarrow> string" where
  "decimal n = (if n < 10 then [digit_char n] else decimal (n div 10) @ [digit_char (n mod 10)])"

declare decimal.simps [simp del]

definition progress_string :: "nat \<Rightarrow> nat \<Rightarrow> string" where
  "progress_string i n = decimal i @ ''/'' @ decimal n"

text \<open>
  \<^verbatim>\<open>list(set(xs))\<close>: the distinct elements of \<open>xs\<close>, in the order the set iterates them.
\<close>

definition py_list_set :: "(string \<Rightarrow> nat) \<Rightarrow> string list \<Rightarrow> string list" where
  "py_list_set rank xs = sort_key rank (remdups xs)"

text \<open>
  Lines 268-271: the root sources among \<^verbatim>\<open>source_names\<close>, then the others.
\<close>

definition root_sources :: "(string \<Rightarrow> nat) \<Rightarrow> string list \<Rightarrow> string list \<Rightarrow> string list" where
  "root_sources rank roots source_names = py_list_set rank [s \<leftarrow> source_names. s \<in> set roots]"

definition other_sources :: "(string \<Rightarrow> nat) \<Rightarrow> string list \<Rightarrow> string list \<Rightarrow> string list" where
  "other_sources rank roots source_names =
     py_list_set rank [s \<leftarrow> source_names. s \<notin> set (root_sources rank roots source_names)]"

definition reorder :: "(string \<Rightarrow> nat) \<Rightarrow> string list \<Rightarrow> string list \<Rightarrow> string list" where
  "reorder rank roots source_names =
     root_sources rank roots source_names @ other_sources rank roots source_names"

text \<open>
  The loop of lines 275-282 over the reordered list: \<open>n\<close> is its length, \<open>i\<close> the index
  of the next source and \<open>stats\<close> the dictionary \<^verbatim>\<open>_stats\<close>.
\<close>

fun merge_loop ::
  "env \<Rightarrow> builder \<Rightarrow> nat \<Rightarrow> nat \<Rightarrow> nat \<Rightarrow> string list \<Rightarrow> (string \<times> int) list \<Rightarrow> world
     \<Rightarrow> (error + (string \<times> int) list) \<times> world" where
  "merge_loop ev b batch_size n i [] stats w = (Inr stats, w)"
| "merge_loop ev b batch_size n i (src # rest) stats w =
     (case register_status ev b ''success'' True False
             (Some [(''step'', VStr src), (''progress'', VStr (progress_string (i + 1) n))]) w of
        (Some e, w1) \<Rightarrow> (Inl e, w1)
      | (None, w1) \<Rightarrow>
          (case merge_source ev b src batch_size w1 of
             (Inl e, w2) \<Rightarrow> (Inl e, w2)
           | (Inr src_stats, w2) \<Rightarrow>
               merge_loop ev b batch_size n (i + 1) rest (dict_update stats src_stats) w2))"

text \<open>\<^verbatim>\<open>merge_sources(source_names, batch_size)\<close>, lines 259-286.\<close>

definition merge_sources ::
  "env \<Rightarrow> builder \<Rightarrow> string list \<Rightarrow> nat \<Rightarrow> world \<Rightarrow> (error + (string \<times> int) list) \<times> world" where
  "merge_sources ev b source_names batch_size w =
     (case get_root_document_sources b of
        Inl e \<Rightarrow> (Inl e, w)
      | Inr roots \<Rightarrow>
          (let order = reorder (set_rank ev (trace w)) roots source_names;
               w1 = emit (LogInfo (MergingSources order)) w
           in case merge_loop ev b batch_size (length order) 0 order [] w1 of
                (Inl e, w2) \<Rightarrow> (Inl e, w2)
              | (Inr stats, w2) \<Rightarrow>
                  (case target_finalize ev (trace w2) of
                     Some e \<Rightarrow> (Inl e, emit Finalize w2)
                   | None \<Rightarrow> (Inr stats, emit Finalize w2))))"

section \<open>The top-level entry point: \<^verbatim>\<open>merge\<close>\<close>

text \<open>
  The \<^verbatim>\<open>sources\<close> argument of \<^verbatim>\<open>merge\<close>: \<^verbatim>\<open>None\<close> (the default), one source name as a string,
  or a list of names.
\<close>

datatype sources_arg = AllSources | OneSource string | SourceList "string list"

text \<open>
  Lines 127-132: with no sources given the target is dropped and prepared and the declared
  sources are read from the configuration; a string becomes a one-element list.
\<close>

definition normalize_sources ::
  "env \<Rightarrow> builder \<Rightarrow> sources_arg \<Rightarrow> world \<Rightarrow> (error + string list) \<times> world" where
  "normalize_sources ev b sources w =
     (case sources of
        OneSource s \<Rightarrow> (Inr [s], w)
      | SourceList l \<Rightarrow> (Inr l, w)
      | AllSources \<Rightarrow>
          (case target_drop ev (trace w) of
             Some e \<Rightarrow> (Inl e, emit Drop w)
           | None \<Rightarrow>
               (let w1 = emit Drop w in
                case target_prepare ev (trace w1) of
                  Some e \<Rightarrow> (Inl e, emit Prepare w1)
                | None \<Rightarrow>
                    (case build_config b of
                       None \<Rightarrow> (Inl TypeError, emit Prepare w1)
                     | Some c \<Rightarrow>
                         (case dict_get c ''sources'' of
                            None \<Rightarrow> (Inl (KeyError ''sources''), emit Prepare w1)
                          | Some l \<Rightarrow> (Inr l, emit Prepare w1))))))"

text \<open>Lines 134-135: \<^verbatim>\<open>if target_name: self.target_backend.set_target_name(target_name)\<close>.\<close>

definition bind_target_name :: "env \<Rightarrow> val \<Rightarrow> world \<Rightarrow> error option \<times> world" where
  "bind_target_name ev tname w =
     (if truthy tname
      then (target_set_target_name ev (trace w) tname, emit (SetTargetName tname) w)
      else (None, w))"

text \<open>
  The body of the \<^verbatim>\<open>try\<close>, lines 138-149. With a parallel engine set, line 142 calls the
  constant \<^verbatim>\<open>NotImplemented\<close>, which is a \<^verbatim>\<open>TypeError\<close>, when sources are given, and line 143
  raises \<^verbatim>\<open>NotImplementedError\<close> otherwise.
\<close>

definition merge_try ::
  "env \<Rightarrow> builder \<Rightarrow> string list \<Rightarrow> nat \<Rightarrow> world \<Rightarrow> error option \<times> world" where
  "merge_try ev b sources batch_size w =
     (case register_status ev b ''building'' True True
             (Some [(''step'', VStr ''init''), (''sources'', VStrs sources)]) w of
        (Some e, w1) \<Rightarrow> (Some e, w1)
      | (None, w1) \<Rightarrow>
          if parallel_engine b
          then (if sources \<noteq> [] then (Some TypeError, w1) else (Some NotImplementedError, w1))
          else
            (case merge_sources ev b sources batch_size w1 of
               (Inl e, w2) \<Rightarrow> (Some e, w2)
             | (Inr stats, w2) \<Rightarrow>
                 (case target_post_merge ev (trace w2) of
                    Some e \<Rightarrow> (Some e, emit PostMerge w2)
                  | None \<Rightarrow>
                      (let w3 = emit PostMerge w2 in
                       case get_src_versions ev (trace w3) of
                         Inl e \<Rightarrow> (Some e, emit GetSrcVersions w3)
                       | Inr versions \<Rightarrow>
                           register_status ev b ''success'' False False
                             (Some [(''stats'', VStats stats), (''src_versions'', versions)])
                             (emit GetSrcVersions w3)))))"

text \<open>
  The handler, lines 151-155: the traceback is logged, \<^verbatim>\<open>"failed"\<close> is registered with
  \<^verbatim>\<open>repr(e)\<close>, and \<^verbatim>\<open>raise\<close> re-raises \<open>e\<close>. An exception raised by the registration itself
  leaves the handler in place of \<open>e\<close>.
\<close>

definition merge_except :: "env \<Rightarrow> builder \<Rightarrow> error \<Rightarrow> world \<Rightarrow> error option \<times> world" where
  "merge_except ev b e w =
     (case register_status ev b ''failed'' False False (Some [(''err'', VStr (repr ev e))])
             (emit (LogError (Traceback e)) w) of
        (Some e', w1) \<Rightarrow> (Some e', w1)
      | (None, w1) \<Rightarrow> (Some e, w1))"

text \<open>
  The \<^verbatim>\<open>finally\<close> block, lines 157-165, run with the outcome \<open>r\<close> of what came before. It
  reads the attribute \<^verbatim>\<open>self._stats\<close>, not the statistics of this run. An exception raised
  here replaces the outcome.
\<close>

definition merge_finally :: "env \<Rightarrow> builder \<Rightarrow> error option \<Rightarrow> world \<Rightarrow> error option \<times> world" where
  "merge_finally ev b r w =
     (case self_stats b of
        None \<Rightarrow> (r, w)
      | Some st \<Rightarrow>
          if st = [] then (r, w)
          else
            (let w1 = emit (LogInfo Validating) w; w2 = emit Count w1 in
             case target_count ev (trace w1) of
               Inl e \<Rightarrow> (Some e, w2)
             | Inr target_cnt \<Rightarrow>
                 (case dict_get st ''total_documents'' of
                    None \<Rightarrow> (Some (KeyError ''total_documents''), w2)
                  | Some expected \<Rightarrow>
                      if target_cnt = expected then (r, emit (LogInfo (CountOK target_cnt)) w2)
                      else
                        (case dict_get st ''total_genes'' of
                           None \<Rightarrow> (Some (KeyError ''total_genes''), w2)
                         | Some genes \<Rightarrow> (r, emit (LogInfo (CountWarning target_cnt genes)) w2)))))"

text \<open>
  \<^verbatim>\<open>merge(sources, target_name, batch_size)\<close>, lines 123-165. The handler runs for what
  \<^verbatim>\<open>except (KeyboardInterrupt, Exception)\<close> catches; any other exception goes to the
  \<^verbatim>\<open>finally\<close> block directly. The result is the exception that reaches the caller, if any,
  and the world after the call.
\<close>

definition merge ::
  "env \<Rightarrow> builder \<Rightarrow> sources_arg \<Rightarrow> val \<Rightarrow> nat \<Rightarrow> world \<Rightarrow> error option \<times> world" where
  "merge ev b sources tname batch_size w =
     (case normalize_sources ev b sources (emit StartTimer w) of
        (Inl e, w1) \<Rightarrow> (Some e, w1)
      | (Inr srcs, w1) \<Rightarrow>
          (case bind_target_name ev tname w1 of
             (Some e, w2) \<Rightarrow> (Some e, w2)
           | (None, w2) \<Rightarrow>
               (case merge_try ev b srcs batch_size w2 of
                  (None, w3) \<Rightarrow> merge_finally ev b None w3
                | (Some e, w3) \<Rightarrow>
                    if caught e
                    then (case merge_except ev b e w3 of
                            (r, w4) \<Rightarrow> merge_finally ev b r w4)
                    else merge_finally ev b (Some e) w3)))"

section \<open>Resuming: \<^verbatim>\<open>merge_resume\<close>\<close>

text \<open>Position of the first occurrence of \<open>s\<close> in \<open>t\<close> (\<^verbatim>\<open>str.index\<close>, \<^verbatim>\<open>in\<close> on strings).\<close>

fun str_find :: "string \<Rightarrow> string \<Rightarrow> nat option" where
  "str_find s [] = (if s = [] then Some 0 else None)"
| "str_find s (c # t) = (if prefix s (c # t) then Some 0 else map_option Suc (str_find s t))"

text \<open>
  \<^verbatim>\<open>step in sources\<close>, line 181, for a truthy \<open>sources\<close>: membership in a list, substring of
  a string, key of a dictionary; a number is not iterable, and a list or a dictionary is
  not hashable.
\<close>

fun py_in :: "val \<Rightarrow> val \<Rightarrow> error + bool" where
  "py_in (VStr s) (VStrs l) = Inr (s \<in> set l)"
| "py_in _ (VStrs l) = Inr False"
| "py_in (VStr s) (VStr t) = Inr (str_find s t \<noteq> None)"
| "py_in _ (VStr t) = Inl TypeError"
| "py_in (VStr s) (VStats d) = Inr (dict_get d s \<noteq> None)"
| "py_in (VStrs _) (VStats d) = Inl TypeError"
| "py_in (VStats _) (VStats d) = Inl TypeError"
| "py_in _ (VStats d) = Inr False"
| "py_in _ _ = Inl TypeError"

text \<open>
  \<^verbatim>\<open>sources[sources.index(step):]\<close>, line 191, once \<^verbatim>\<open>step in sources\<close> holds: the value to
  validate and the argument passed on to \<^verbatim>\<open>merge\<close>. A dictionary has no \<^verbatim>\<open>index\<close>.
\<close>

fun remaining_sources :: "val \<Rightarrow> val \<Rightarrow> error + (val \<times> sources_arg)" where
  "remaining_sources (VStrs l) (VStr s) =
     (let rest = dropWhile (\<lambda>x. x \<noteq> s) l in Inr (VStrs rest, SourceList rest))"
| "remaining_sources (VStr t) (VStr s) =
     (case str_find s t of
        None \<Rightarrow> Inl (External ''ValueError'')
      | Some i \<Rightarrow> Inr (VStr (drop i t), OneSource (drop i t)))"
| "remaining_sources _ _ = Inl AttributeError"

text \<open>
  \<^verbatim>\<open>merge_resume()\<close>, lines 167-195. \<^verbatim>\<open>merge\<close> is called with its default batch size.
\<close>

definition last_build :: "world \<Rightarrow> error + dict" where
  "last_build w =
     (case (case cfg_build w of None \<Rightarrow> [] | Some h \<Rightarrow> h) of
        [] \<Rightarrow>
          (case cfg_name w of
             None \<Rightarrow> Inl (KeyError ''name'')
           | Some n \<Rightarrow> Inl (ResumeException (NoBuildBound n)))
      | r # rs \<Rightarrow> Inr (last (r # rs)))"

text \<open>Lines 175-188: the checks on the latest record, in the order of the source.\<close>

definition resume_checks :: "dict \<Rightarrow> error option" where
  "resume_checks build =
     (let sources = get_val build ''sources'' in
      if \<not> truthy sources then Some (ResumeException NoSources)
      else
        (let step = get_val build ''step'' in
         if \<not> truthy step then Some (ResumeException NoStep)
         else
           (case py_in step sources of
              Inl e \<Rightarrow> Some e
            | Inr False \<Rightarrow> Some (ResumeException (StepNotInSources step sources))
            | Inr True \<Rightarrow>
                if \<not> truthy (get_val build ''target_name'')
                then Some (ResumeException NoTargetName)
                else if (case dict_get build ''status'' of
                           None \<Rightarrow> VStr ''success''
                         | Some v \<Rightarrow> v) \<noteq> VStr ''failed''
                then Some (ResumeException NothingToResume)
                else None)))"

text \<open>Lines 189-195: the remaining sources are validated and \<^verbatim>\<open>merge\<close> is called.\<close>

definition resume_merge :: "env \<Rightarrow> builder \<Rightarrow> dict \<Rightarrow> world \<Rightarrow> error option \<times> world" where
  "resume_merge ev b build w =
     (case remaining_sources (get_val build ''sources'') (get_val build ''step'') of
        Inl e \<Rightarrow> (Some e, w)
      | Inr (remaining, arg) \<Rightarrow>
          (case validate_sources ev (trace w) remaining of
             Some e \<Rightarrow> (Some e, emit (ValidateSources remaining) w)
           | None \<Rightarrow>
               merge ev b arg (get_val build ''target_name'') 100000
                 (emit (LogInfo (ResumingBuild build)) (emit (ValidateSources remaining) w))))"

text \<open>
  Line 169 reads \<^verbatim>\<open>self._build_config['_id']\<close>, a \<^verbatim>\<open>TypeError\<close> when the builder has no
  configuration, and fetches the document with \<^verbatim>\<open>find_one\<close>.
\<close>

definition merge_resume :: "env \<Rightarrow> builder \<Rightarrow> world \<Rightarrow> error option \<times> world" where
  "merge_resume ev b w =
     (case build_config b of
        None \<Rightarrow> (Some TypeError, w)
      | Some _ \<Rightarrow>
          (case store_find_one ev (trace w) of
             Some e \<Rightarrow> (Some e, emit FindOne w)
           | None \<Rightarrow>
               (let w1 = emit FindOne w in
                case last_build w1 of
                  Inl e \<Rightarrow> (Some e, w1)
                | Inr build \<Rightarrow>
                    (case resume_checks build of
                       Some e \<Rightarrow> (Some e, w1)
                     | None \<Rightarrow> resume_merge ev b build w1))))"

section \<open>The identifier lineage graph: \<^verbatim>\<open>RecChain\<close>\<close>

text \<open>
  \<^verbatim>\<open>biothings/hub/datatransform/record_chain.py\<close> wraps a \<^verbatim>\<open>networkx.DiGraph\<close>. Identifiers are
  Python integers (as in the repository's test) or strings. The graph keeps its nodes and
  its edges in insertion order, each once; \<open>printed\<close> collects what \<^verbatim>\<open>add\<close> prints.
\<close>

datatype ident = IInt int | IStr string

record rec_chain =
  nodes :: "ident list"
  edges :: "(ident \<times> ident) list"
  printed :: "(ident \<times> ident) list"

definition empty_chain :: rec_chain where
  "empty_chain = \<lparr>nodes = [], edges = [], printed = []\<rparr>"

definition add_node :: "ident \<Rightarrow> rec_chain \<Rightarrow> rec_chain" where
  "add_node n c = (if n \<in> set (nodes c) then c else c\<lparr>nodes := nodes c @ [n]\<rparr>)"

definition add_edge :: "ident \<Rightarrow> ident \<Rightarrow> rec_chain \<Rightarrow> rec_chain" where
  "add_edge u v c =
     (let c1 = add_node v (add_node u c)
      in if (u, v) \<in> set (edges c1) then c1 else c1\<lparr>edges := edges c1 @ [(u, v)]\<rparr>)"

definition add_root :: "ident \<Rightarrow> rec_chain \<Rightarrow> rec_chain" where
  "add_root obj1 c = add_node obj1 c"

text \<open>\<^verbatim>\<open>add(obj1, obj2)\<close>, lines 28-34: print, add the node \<open>obj2\<close>, add the edge.\<close>

definition add :: "ident \<Rightarrow> ident \<Rightarrow> rec_chain \<Rightarrow> rec_chain" where
  "add obj1 obj2 c = add_edge obj1 obj2 (add_node obj2 (c\<lparr>printed := printed c @ [(obj1, obj2)]\<rparr>))"

definition out_edges :: "rec_chain \<Rightarrow> ident \<Rightarrow> (ident \<times> ident) list" where
  "out_edges c n = [e \<leftarrow> edges c. fst e = n]"

definition out_degree :: "rec_chain \<Rightarrow> ident \<Rightarrow> nat" where
  "out_degree c n = length (out_edges c n)"

definition in_degree :: "rec_chain \<Rightarrow> ident \<Rightarrow> nat" where
  "in_degree c n = length [e \<leftarrow> edges c. snd e = n]"

text \<open>
  A Python generator, run to its end: the values it yields and the exception that ends it,
  if any. A consumer that stops early sees a prefix of the values and not the exception.
  \<open>gen_chain\<close> runs generators one after the other, as nested \<^verbatim>\<open>for\<close> loops with
  \<^verbatim>\<open>yield\<close> do.
\<close>

type_synonym 'a gen = "'a list \<times> error option"

fun gen_chain :: "'a gen list \<Rightarrow> 'a gen" where
  "gen_chain [] = ([], None)"
| "gen_chain ((ys, Some e) # gs) = (ys, Some e)"
| "gen_chain ((ys, None) # gs) = (ys @ fst (gen_chain gs), snd (gen_chain gs))"

text \<open>
  What networkx makes of an identifier that is not a node of the graph, where a node or a
  collection of nodes is expected (\<^verbatim>\<open>out_degree\<close>, \<^verbatim>\<open>out_edges\<close>): an integer cannot be
  iterated, which raises \<^verbatim>\<open>NetworkXError\<close>; a string is taken as the collection of its
  characters, and those that are nodes contribute their outgoing edges, in the order of
  their first occurrence (networkx keeps the collection as the keys of a \<^verbatim>\<open>dict\<close>, so that a
  repeated character counts once).
\<close>

definition bunch_out_edges :: "rec_chain \<Rightarrow> string \<Rightarrow> (ident \<times> ident) list" where
  "bunch_out_edges c s =
     concat (map (\<lambda>ch. if IStr [ch] \<in> set (nodes c) then out_edges c (IStr [ch]) else [])
               (remdups s))"

text \<open>
  \<^verbatim>\<open>find_leaf(n)\<close>, lines 124-129. The recursion has no guard against a cycle; \<open>depth\<close> is
  the interpreter's recursion limit, and reaching it raises \<^verbatim>\<open>RecursionError\<close>. For a
  string that is not a node, the degree asked of networkx is a collection and not the
  number 0, so the \<^verbatim>\<open>else\<close> branch runs over the edges above.
\<close>

fun find_leaf :: "nat \<Rightarrow> rec_chain \<Rightarrow> ident \<Rightarrow> ident gen" where
  "find_leaf 0 c n = ([], Some RecursionError)"
| "find_leaf (Suc depth) c n =
     (if n \<in> set (nodes c)
      then (if out_degree c n = 0 then ([n], None)
            else gen_chain (map (\<lambda>e. find_leaf depth c (snd e)) (out_edges c n)))
      else (case n of
              IInt i \<Rightarrow> ([], Some (External ''NetworkXError''))
            | IStr s \<Rightarrow> gen_chain (map (\<lambda>e. find_leaf depth c (snd e)) (bunch_out_edges c s))))"

text \<open>\<^verbatim>\<open>root_nodes()\<close> and \<^verbatim>\<open>leaf_nodes()\<close>, lines 101-107.\<close>

definition root_nodes :: "rec_chain \<Rightarrow> ident list" where
  "root_nodes c = [x \<leftarrow> nodes c. out_degree c x = 1 \<and> in_degree c x = 0]"

definition leaf_nodes :: "rec_chain \<Rightarrow> ident list" where
  "leaf_nodes c = [x \<leftarrow> nodes c. out_degree c x = 0 \<and> in_degree c x = 1]"

text \<open>\<^verbatim>\<open>__iter__\<close>, lines 131-135: the pairs \<open>(r, l)\<close> for each root node and each leaf found from it.\<close>

definition iter :: "nat \<Rightarrow> rec_chain \<Rightarrow> (ident \<times> ident) gen" where
  "iter depth c =
     gen_chain (map (\<lambda>r. (map (Pair r) (fst (find_leaf depth c r)), snd (find_leaf depth c r)))
                    (root_nodes c))"

text \<open>
  \<^verbatim>\<open>__iadd__\<close>, lines 36-42. The right operand is any Python object: a \<^verbatim>\<open>RecChain\<close> (another
  object than the left operand) or not. The pairs that the iteration of \<open>other\<close> yields are
  added one by one; an exception that ends the iteration leaves the pairs added so far.
\<close>

datatype operand = IsRecChain rec_chain | NotRecChain

definition iadd :: "nat \<Rightarrow> rec_chain \<Rightarrow> operand \<Rightarrow> rec_chain \<times> error option" where
  "iadd depth c other =
     (case other of
        NotRecChain \<Rightarrow> (c, Some TypeError)
      | IsRecChain d \<Rightarrow>
          (fold (\<lambda>p acc. add (fst p) (snd p) acc) (fst (iter depth d)) c, snd (iter depth d)))"

text \<open>
  \<^verbatim>\<open>for id in ids\<close>: iterating an integer is a \<^verbatim>\<open>TypeError\<close>; iterating a string gives its
  characters, each a one-character string.
\<close>

definition py_iter :: "ident \<Rightarrow> error + ident list" where
  "py_iter x = (case x of IInt _ \<Rightarrow> Inl TypeError | IStr s \<Rightarrow> Inr (map (\<lambda>ch. IStr [ch]) s))"

text \<open>\<^verbatim>\<open>find_left(ids)\<close>, lines 86-89.\<close>

definition find_left :: "nat \<Rightarrow> rec_chain \<Rightarrow> ident \<Rightarrow> ident gen" where
  "find_left depth c ids =
     (case py_iter ids of
        Inl e \<Rightarrow> ([], Some e)
      | Inr xs \<Rightarrow> gen_chain (map (find_leaf depth c) xs))"

text \<open>
  \<^verbatim>\<open>lookup(obj1, obj2)\<close>, lines 65-70: \<^verbatim>\<open>True\<close> at the first value of \<^verbatim>\<open>find_left(obj1)\<close> equal to
  \<open>obj2\<close>; otherwise the exception that ends the generator, if any; otherwise \<^verbatim>\<open>False\<close>.
\<close>

definition lookup :: "nat \<Rightarrow> rec_chain \<Rightarrow> ident \<Rightarrow> ident \<Rightarrow> error + bool" where
  "lookup depth c obj1 obj2 =
     (if obj2 \<in> set (fst (find_left depth c obj1)) then Inr True
      else case snd (find_left depth c obj1) of Some e \<Rightarrow> Inl e | None \<Rightarrow> Inr False)"

section \<open>Observations on traces and histories\<close>

text \<open>The write modes passed to the target store's \<^verbatim>\<open>update\<close>, in the order of the calls.\<close>

fun update_mode_of :: "event \<Rightarrow> bool list" where
  "update_mode_of (Update docs upsert) = [upsert]"
| "update_mode_of _ = []"

definition update_modes :: "event list \<Rightarrow> bool list" where
  "update_modes tr = concat (map update_mode_of tr)"

text \<open>The sources whose documents were requested from the feeder, in the order of the calls.\<close>

fun fed_source_of :: "event \<Rightarrow> string list" where
  "fed_source_of (Feed src n) = [src]"
| "fed_source_of _ = []"

definition fed_sources :: "event list \<Rightarrow> string list" where
  "fed_sources tr = concat (map fed_source_of tr)"

text \<open>No call on the \<^verbatim>\<open>src_build\<close> collection raises.\<close>

definition reliable_store :: "env \<Rightarrow> bool" where
  "reliable_store ev =
     (\<forall>tr. store_find_one ev tr = None \<and> store_replace_one ev tr = None
           \<and> (\<forall>call. store_update ev tr call = None))"

text \<open>The persisted history exists and holds a record.\<close>

definition has_record :: "world \<Rightarrow> bool" where
  "has_record w = (case cfg_build w of None \<Rightarrow> False | Some h \<Rightarrow> h \<noteq> [])"

text \<open>The statuses of the persisted history, oldest first.\<close>

definition statuses :: "world \<Rightarrow> val list option" where
  "statuses w = map_option (map (\<lambda>r. get_val r ''status'')) (cfg_build w)"

section \<open>Concrete configurations\<close>

text \<open>
  An environment in which no collaborator fails: two sources without an identifier type,
  served by the mapper registered under \<^verbatim>\<open>None\<close>, each feeding one batch of one document;
  the target counts 5 documents; sets iterate shorter names first.
\<close>

definition repr0 :: "error \<Rightarrow> string" where
  "repr0 e =
     (case e of
        KeyboardInterrupt \<Rightarrow> ''KeyboardInterrupt()''
      | External s \<Rightarrow> s
      | _ \<Rightarrow> ''Exception()'')"

definition env0 :: env where
  "env0 =
     \<lparr>now = (\<lambda>tr. VNum (int (length tr))), getpid = VNum 4242,
      timesofar = (\<lambda>tr. VStr ''1s''), time_in_s = (\<lambda>tr. VNum 1),
      target_backend_name = VStr ''mongo'', target_name = (\<lambda>tr. VStr ''genedoc''),
      target_drop = (\<lambda>tr. None), target_prepare = (\<lambda>tr. None),
      target_set_target_name = (\<lambda>tr n. None), target_post_merge = (\<lambda>tr. None),
      target_finalize = (\<lambda>tr. None), target_count = (\<lambda>tr. Inr 5),
      target_update = (\<lambda>tr docs upsert. Inr (int (length docs))),
      validate_sources = (\<lambda>tr names. None), get_src_versions = (\<lambda>tr. Inr VNone),
      get_src_master_docs = (\<lambda>tr. Inr [(''geneinfo'', None), (''refseq'', None)]),
      need_load = (\<lambda>tr m. Inr False), load = (\<lambda>tr m. None),
      process = (\<lambda>tr m docs. Inr docs),
      feed = (\<lambda>tr src n. ([[[(''_id'', VStr src)]]], None)),
      repr = repr0, set_rank = (\<lambda>tr s. length s),
      store_find_one = (\<lambda>tr. None), store_replace_one = (\<lambda>tr. None),
      store_update = (\<lambda>tr call. None)\<rparr>"

text \<open>The same environment with a target store whose \<^verbatim>\<open>drop\<close> fails.\<close>

definition env_drop_fails :: env where
  "env_drop_fails = env0\<lparr>target_drop := (\<lambda>tr. Some (External ''drop failed''))\<rparr>"

text \<open>The same environment with a store that refuses every \<^verbatim>\<open>update\<close> (\<^verbatim>\<open>$push\<close>, \<^verbatim>\<open>$pop\<close>).\<close>

definition env_push_fails :: env where
  "env_push_fails = env0\<lparr>store_update := (\<lambda>tr call. Some (External ''update refused''))\<rparr>"

text \<open>The same environment with an operator's interrupt while \<^verbatim>\<open>geneinfo\<close> is read.\<close>

definition env_interrupted :: env where
  "env_interrupted =
     env0\<lparr>feed := (\<lambda>tr src n. if src = ''geneinfo'' then ([], Some KeyboardInterrupt)
                               else ([[[(''_id'', VStr src)]]], None))\<rparr>"

text \<open>
  The interrupted environment with a store whose connection is lost by the time the failure
  has been logged: \<^verbatim>\<open>replace_one\<close> fails from then on.
\<close>

fun is_log_error :: "event \<Rightarrow> bool" where
  "is_log_error (LogError m) = True"
| "is_log_error _ = False"

definition env_store_lost :: env where
  "env_store_lost =
     env_interrupted\<lparr>store_replace_one :=
       (\<lambda>tr. if list_ex is_log_error tr then Some (External ''connection lost'') else None)\<rparr>"

text \<open>The environment in which reading \<^verbatim>\<open>geneinfo\<close> ends the interpreter (\<^verbatim>\<open>sys.exit\<close>).\<close>

definition env_exit :: env where
  "env_exit =
     env0\<lparr>feed := (\<lambda>tr src n. if src = ''geneinfo'' then ([], Some SystemExit)
                               else ([[[(''_id'', VStr src)]]], None))\<rparr>"

text \<open>
  A builder as \<^verbatim>\<open>__init__\<close> leaves it: two declared sources, \<^verbatim>\<open>refseq\<close> the only root
  source, at most two records to keep, no \<^verbatim>\<open>_stats\<close> attribute.
\<close>

definition builder0 :: builder where
  "builder0 =
     \<lparr>build_config = Some [(''sources'', [''geneinfo'', ''refseq'']), (''root'', [''refseq''])],
      doc_root_key = Some ''root'', max_build_status = 2, parallel_engine = False,
      logfile = VStr ''build.log'', id_mappers = [None], self_stats = None\<rparr>"

text \<open>The builder after \<^verbatim>\<open>build_index2\<close> has stored the statistics of an earlier build.\<close>

definition builder_stale_stats :: builder where
  "builder_stale_stats =
     builder0\<lparr>self_stats := Some [(''total_refseq'', 1), (''total_geneinfo'', 1)]\<rparr>"

text \<open>A configuration document named \<^verbatim>\<open>demo\<close> with the history \<open>h\<close>, before any call.\<close>

definition ledger :: "dict list \<Rightarrow> world" where
  "ledger h = \<lparr>cfg_name = Some (VStr ''demo''), cfg_build = Some h, trace = []\<rparr>"

text \<open>The record of a finished run, and the record of a run that failed at \<^verbatim>\<open>refseq\<close>.\<close>

definition done_record :: dict where
  "done_record =
     [(''status'', VStr ''success''), (''step'', VStr ''geneinfo''),
      (''sources'', VStrs [''geneinfo'', ''refseq'']), (''target_name'', VStr ''genedoc'')]"

definition failed_record :: dict where
  "failed_record =
     [(''status'', VStr ''failed''), (''step'', VStr ''refseq''),
      (''sources'', VStrs [''geneinfo'', ''refseq'', ''uniprot'']),
      (''target_name'', VStr ''genedoc'')]"

text \<open>\<^verbatim>\<open>register_status("building", transient=True, init=True)\<close> in this setting.\<close>

definition register_init :: "world \<Rightarrow> world" where
  "register_init w = snd (register_status env0 builder0 ''building'' True True None w)"

text \<open>
  The chain of the repository's test (roots 1, 2, 3; edges 1-2, 2-3, 3-4, 3-5) and a
  chain of two edges 1-2, 2-3.
\<close>

definition test_chain :: rec_chain where
  "test_chain =
     add (IInt 3) (IInt 5) (add (IInt 3) (IInt 4) (add (IInt 2) (IInt 3) (add (IInt 1) (IInt 2)
       (add_root (IInt 3) (add_root (IInt 2) (add_root (IInt 1) empty_chain))))))"

definition two_step_chain :: rec_chain where
  "two_step_chain = add (IInt 2) (IInt 3) (add (IInt 1) (IInt 2) empty_chain)"

section \<open>Properties of the Build Status Ledger\<close>

lemma cfg_build_emit [simp]: "cfg_build (emit e w) = cfg_build w"
  by (simp add: emit_def)

lemma has_record_emit [simp]: "has_record (emit e w) = has_record w"
  by (simp add: has_record_def)

lemma reliable_storeD:
  assumes "reliable_store ev"
  shows "store_find_one ev tr = None" and "store_replace_one ev tr = None"
    and "store_update ev tr call = None"
  using assms by (simp_all add: reliable_store_def)

lemma pop_loop_reliable:
  assumes "reliable_store ev"
  shows "fst (pop_loop ev n w) = None
         \<and> cfg_build (snd (pop_loop ev n w)) = map_option (drop n) (cfg_build w)"
proof (induction n arbitrary: w)
  case 0
  show ?case by (cases "cfg_build w") simp_all
next
  case (Suc n)
  show ?case
    by (cases "cfg_build w")
       (simp_all add: Suc reliable_storeD [OF assms] mongo_pop_first_def drop_Suc drop_tl)
qed

lemma map_of_dict_set: "map_of (dict_set d k v) = (map_of d)(k \<mapsto> v)"
  by (induction d) auto

lemma dict_get_update:
  "dict_get (dict_update d other) k
     = (case dict_get (rev other) k of None \<Rightarrow> dict_get d k | Some v \<Rightarrow> Some v)"
proof (induction other arbitrary: d)
  case Nil
  show ?case by (simp add: dict_update_def dict_get_def)
next
  case (Cons kv other)
  have "dict_get (dict_update d (kv # other)) k
          = dict_get (dict_update (dict_set d (fst kv) (snd kv)) other) k"
    by (simp add: dict_update_def)
  also have "\<dots> = (case dict_get (rev other) k of
                      None \<Rightarrow> dict_get (dict_set d (fst kv) (snd kv)) k
                    | Some v \<Rightarrow> Some v)"
    by (rule Cons.IH)
  also have "\<dots> = (case dict_get (rev (kv # other)) k of None \<Rightarrow> dict_get d k | Some v \<Rightarrow> Some v)"
    by (cases kv) (simp add: dict_get_def map_of_dict_set map_add_def split: option.splits)
  finally show ?case .
qed

text \<open>
  What a call of \<^verbatim>\<open>register_status\<close> leaves in the history when no store call raises, on a
  bound configuration whose document has a history \<open>h\<close> (which must hold a record when a
  payload is given): the payload is merged into the last record of \<open>h\<close>; with \<^verbatim>\<open>init\<close> the
  new record is appended and the oldest \<open>length h - max_build_status\<close> records are dropped.
\<close>

lemma register_status_history:
  assumes cfg: "build_config b = Some c" and h: "cfg_build w = Some h"
    and ne: "h \<noteq> [] \<or> xb = None" and rel: "reliable_store ev"
  shows "fst (register_status ev b st tr init xb w) = None
       \<and> cfg_build (snd (register_status ev b st tr init xb w))
           = Some (let info = (case xb of
                                 None \<Rightarrow> build_info ev b st tr (trace w)
                               | Some x \<Rightarrow> dict_update (build_info ev b st tr (trace w)) x);
                       h1 = (case xb of
                               None \<Rightarrow> h
                             | Some x \<Rightarrow> butlast h @ [dict_update (last h) info])
                   in if init then drop (nat (int (length h) - max_build_status b)) (h1 @ [info])
                      else h1)"
proof (cases xb)
  case None
  then show ?thesis
    using cfg h
    by (simp add: register_status_def merge_extra_def push_and_trim_def mongo_push_def
        pop_loop_reliable [OF rel] reliable_storeD [OF rel] Let_def)
next
  case (Some x)
  with ne have "h \<noteq> []" by simp
  with Some show ?thesis
    using cfg h
    by (simp add: register_status_def merge_extra_def push_and_trim_def mongo_push_def
        pop_loop_reliable [OF rel] reliable_storeD [OF rel] Let_def)
qed

text \<open>
  The bound the code keeps: after a registration with \<^verbatim>\<open>init\<close> the history holds one
  record more than the smaller of its former length and \<^verbatim>\<open>max_build_status\<close>, and the
  records kept are the newest ones, in order.
\<close>

lemma register_status_init_length:
  assumes "build_config b = Some c" and "cfg_build w = Some h" and "h \<noteq> [] \<or> xb = None"
    and "0 \<le> max_build_status b" and "reliable_store ev"
  shows "\<exists>h'. cfg_build (snd (register_status ev b st tr True xb w)) = Some h'
            \<and> length h' = min (length h) (nat (max_build_status b)) + 1
            \<and> (\<exists>r. suffix h' (butlast h @ [r, last h']))"
proof -
  define info where "info = (case xb of None \<Rightarrow> build_info ev b st tr (trace w)
               | Some x \<Rightarrow> dict_update (build_info ev b st tr (trace w)) x)"
  define h1 where "h1 = (case xb of None \<Rightarrow> h | Some x \<Rightarrow> butlast h @ [dict_update (last h) info])"
  define n where "n = nat (int (length h) - max_build_status b)"
  define h' where "h' = drop n (h1 @ [info])"
  have c: "cfg_build (snd (register_status ev b st tr True xb w)) = Some h'"
    using register_status_history [OF assms(1-3) assms(5), of st tr True]
    unfolding h'_def h1_def info_def n_def by (simp add: Let_def)
  have l1: "length h1 = length h"
    using assms(3) by (cases xb) (auto simp: h1_def)
  have n: "n \<le> length h" "n = length h - nat (max_build_status b)"
    using assms(4) by (simp_all add: n_def)
  have len: "length h' = min (length h) (nat (max_build_status b)) + 1"
    using n l1 by (simp add: h'_def min_def)
  have "n < length (h1 @ [info])" using n l1 by simp
  then have "last h' = last (h1 @ [info])" unfolding h'_def by (rule last_drop)
  then have la: "last h' = info" by simp
  have "\<exists>r. h1 @ [info] = butlast h @ [r, info] \<or> h1 = []"
    using assms(3) by (cases xb) (auto simp: h1_def intro: exI [of _ "last h"])
  then obtain r where r: "h1 @ [info] = butlast h @ [r, info] \<or> h1 = []" ..
  have "suffix h' (butlast h @ [r, last h'])"
  proof (cases "h1 = []")
    case True
    then have "h = []" using l1 by auto
    with n have "h' = [info]" by (simp add: h'_def True)
    then show ?thesis by (simp add: suffix_def \<open>h = []\<close>)
  next
    case False
    with r la have "h1 @ [info] = butlast h @ [r, last h']" by auto
    then show ?thesis unfolding h'_def by (metis suffix_drop)
  qed
  with c len show ?thesis by (intro exI [of _ h'] conjI exI [of _ r])
qed

text \<open>
  Without \<^verbatim>\<open>init\<close>, a registration leaves every record but the last one as it was and
  appends nothing.
\<close>

lemma register_status_frame:
  assumes "build_config b = Some c" and "cfg_build w = Some h" and "h \<noteq> [] \<or> xb = None"
    and "reliable_store ev"
  shows "\<exists>h'. cfg_build (snd (register_status ev b st tr False xb w)) = Some h'
            \<and> length h' = length h \<and> butlast h' = butlast h"
  using register_status_history [OF assms, of st tr False] assms(3)
  by (cases xb) (auto simp: Let_def)

text \<open>
  Claim C1. The claim: after every \<^verbatim>\<open>register(status, init=True, ...)\<close> the persisted history
  holds at most \<^verbatim>\<open>max_build_status\<close> records. The code compares the length read before the
  push with the maximum, so one record too many stays: with a maximum of 2 and an empty
  history, three initialising registrations leave three records. (Eviction itself is
  oldest first, as the claim says.)
\<close>

theorem register_status_keeps_one_too_many:
  "max_build_status builder0 = 2
   \<and> map_option length (cfg_build (register_init (register_init (register_init (ledger [])))))
       = Some 3"
  by code_simp

text \<open>
  Claim C4. The claim: a registration that initialises a new record with a \<^verbatim>\<open>build\<close>
  payload does not modify the previous attempt's record. The code merges the payload and
  the new status into the last record it read, which is the previous attempt's, before it
  pushes the new one: the finished run's \<^verbatim>\<open>success\<close> record becomes a \<^verbatim>\<open>building\<close> record
  at step \<^verbatim>\<open>init\<close>. This is the first registration of every \<^verbatim>\<open>merge\<close>.
\<close>

theorem register_status_init_overwrites_previous:
  "statuses (ledger [done_record]) = Some [VStr ''success'']
   \<and> statuses (snd (register_status env0 builder0 ''building'' True True
                      (Some [(''step'', VStr ''init''), (''sources'', VStrs [''geneinfo''])])
                      (ledger [done_record])))
       = Some [VStr ''building'', VStr ''building'']
   \<and> map_option (map (\<lambda>r. get_val r ''step''))
        (cfg_build (snd (register_status env0 builder0 ''building'' True True
                      (Some [(''step'', VStr ''init''), (''sources'', VStrs [''geneinfo''])])
                      (ledger [done_record]))))
       = Some [VStr ''init'', VStr ''init'']"
  by code_simp

section \<open>Properties of \<^verbatim>\<open>merge_resume\<close>\<close>

lemma last_build_nonempty:
  "cfg_build w = Some h \<Longrightarrow> h \<noteq> [] \<Longrightarrow> last_build w = Inr (last h)"
  by (cases h) (simp_all add: last_build_def)

lemma cfg_name_emit [simp]: "cfg_name (emit e w) = cfg_name w"
  by (simp add: emit_def)

lemma last_build_emit [simp]: "last_build (emit e w) = last_build w"
  unfolding last_build_def
  by (cases "cfg_build w") (simp_all split: list.splits)

text \<open>A builder without a configuration cannot resume: line 169 raises \<^verbatim>\<open>TypeError\<close>.\<close>

lemma merge_resume_unbound:
  "build_config b = None \<Longrightarrow> merge_resume ev b w = (Some TypeError, w)"
  by (simp add: merge_resume_def)

text \<open>An exception of the store's \<^verbatim>\<open>find_one\<close> reaches the caller.\<close>

lemma merge_resume_store_fails:
  "build_config b = Some c \<Longrightarrow> store_find_one ev (trace w) = Some e
     \<Longrightarrow> merge_resume ev b w = (Some e, emit FindOne w)"
  by (simp add: merge_resume_def)

lemma merge_resume_check_fails:
  "build_config b = Some c \<Longrightarrow> store_find_one ev (trace w) = None
     \<Longrightarrow> cfg_build w = Some h \<Longrightarrow> h \<noteq> [] \<Longrightarrow> resume_checks (last h) = Some x
     \<Longrightarrow> merge_resume ev b w = (Some x, emit FindOne w)"
  by (simp add: merge_resume_def last_build_nonempty)

lemma merge_resume_no_build:
  "build_config b = Some c \<Longrightarrow> store_find_one ev (trace w) = None
     \<Longrightarrow> cfg_build w = None \<or> cfg_build w = Some [] \<Longrightarrow> cfg_name w = Some n
     \<Longrightarrow> merge_resume ev b w = (Some (ResumeException (NoBuildBound n)), emit FindOne w)"
  by (auto simp: merge_resume_def Let_def last_build_def)

lemma checks_no_sources:
  "\<not> truthy (get_val d ''sources'') \<Longrightarrow> resume_checks d = Some (ResumeException NoSources)"
  by (simp add: resume_checks_def)

lemma checks_no_step:
  "truthy (get_val d ''sources'') \<Longrightarrow> \<not> truthy (get_val d ''step'')
     \<Longrightarrow> resume_checks d = Some (ResumeException NoStep)"
  by (simp add: resume_checks_def)

lemma checks_step_not_in_sources:
  "truthy (get_val d ''sources'') \<Longrightarrow> truthy (get_val d ''step'')
     \<Longrightarrow> py_in (get_val d ''step'') (get_val d ''sources'') = Inr False
     \<Longrightarrow> resume_checks d
           = Some (ResumeException (StepNotInSources (get_val d ''step'') (get_val d ''sources'')))"
  by (simp add: resume_checks_def)

lemma checks_no_target_name:
  "truthy (get_val d ''sources'') \<Longrightarrow> truthy (get_val d ''step'')
     \<Longrightarrow> py_in (get_val d ''step'') (get_val d ''sources'') = Inr True
     \<Longrightarrow> \<not> truthy (get_val d ''target_name'')
     \<Longrightarrow> resume_checks d = Some (ResumeException NoTargetName)"
  by (simp add: resume_checks_def)

lemma checks_not_failed:
  "truthy (get_val d ''sources'') \<Longrightarrow> truthy (get_val d ''step'')
     \<Longrightarrow> py_in (get_val d ''step'') (get_val d ''sources'') = Inr True
     \<Longrightarrow> truthy (get_val d ''target_name'')
     \<Longrightarrow> dict_get d ''status'' \<noteq> Some (VStr ''failed'')
     \<Longrightarrow> resume_checks d = Some (ResumeException NothingToResume)"
  by (cases "dict_get d ''status''") (simp_all add: resume_checks_def)

lemma checks_pass:
  "truthy (get_val d ''sources'') \<Longrightarrow> truthy (get_val d ''step'')
     \<Longrightarrow> py_in (get_val d ''step'') (get_val d ''sources'') = Inr True
     \<Longrightarrow> truthy (get_val d ''target_name'')
     \<Longrightarrow> dict_get d ''status'' = Some (VStr ''failed'')
     \<Longrightarrow> resume_checks d = None"
  by (simp add: resume_checks_def)

text \<open>
  Claim C2. On a builder with a configuration, once the store has returned the
  configuration document, \<^verbatim>\<open>merge_resume\<close> raises a \<^verbatim>\<open>ResumeException\<close> of its own for each
  unmet precondition, checked in this order against the latest record \<open>last h\<close>: no history
  (missing or empty); no \<^verbatim>\<open>sources\<close> (missing, \<^verbatim>\<open>None\<close> or empty); no \<^verbatim>\<open>step\<close>; \<^verbatim>\<open>step\<close> not in
  \<^verbatim>\<open>sources\<close>; no \<^verbatim>\<open>target_name\<close>; a status other than \<^verbatim>\<open>failed\<close> (a missing status counts as
  \<^verbatim>\<open>success\<close>). The exception reaches the caller, and nothing but the read of the document
  has happened. The six reasons are pairwise different.
\<close>

theorem merge_resume_distinct_failures:
  assumes cfg: "build_config b = Some c" and found: "store_find_one ev (trace w) = None"
  shows
  "((cfg_build w = None \<or> cfg_build w = Some []) \<and> cfg_name w = Some n
      \<longrightarrow> merge_resume ev b w = (Some (ResumeException (NoBuildBound n)), emit FindOne w))
   \<and> (cfg_build w = Some h \<and> h \<noteq> [] \<and> \<not> truthy (get_val (last h) ''sources'')
      \<longrightarrow> merge_resume ev b w = (Some (ResumeException NoSources), emit FindOne w))
   \<and> (cfg_build w = Some h \<and> h \<noteq> [] \<and> truthy (get_val (last h) ''sources'')
       \<and> \<not> truthy (get_val (last h) ''step'')
      \<longrightarrow> merge_resume ev b w = (Some (ResumeException NoStep), emit FindOne w))
   \<and> (cfg_build w = Some h \<and> h \<noteq> [] \<and> truthy (get_val (last h) ''sources'')
       \<and> truthy (get_val (last h) ''step'')
       \<and> py_in (get_val (last h) ''step'') (get_val (last h) ''sources'') = Inr False
      \<longrightarrow> merge_resume ev b w
            = (Some (ResumeException (StepNotInSources (get_val (last h) ''step'')
                                        (get_val (last h) ''sources''))), emit FindOne w))
   \<and> (cfg_build w = Some h \<and> h \<noteq> [] \<and> truthy (get_val (last h) ''sources'')
       \<and> truthy (get_val (last h) ''step'')
       \<and> py_in (get_val (last h) ''step'') (get_val (last h) ''sources'') = Inr True
       \<and> \<not> truthy (get_val (last h) ''target_name'')
      \<longrightarrow> merge_resume ev b w = (Some (ResumeException NoTargetName), emit FindOne w))
   \<and> (cfg_build w = Some h \<and> h \<noteq> [] \<and> truthy (get_val (last h) ''sources'')
       \<and> truthy (get_val (last h) ''step'')
       \<and> py_in (get_val (last h) ''step'') (get_val (last h) ''sources'') = Inr True
       \<and> truthy (get_val (last h) ''target_name'')
       \<and> dict_get (last h) ''status'' \<noteq> Some (VStr ''failed'')
      \<longrightarrow> merge_resume ev b w = (Some (ResumeException NothingToResume), emit FindOne w))
   \<and> distinct [NoBuildBound n, NoSources, NoStep, StepNotInSources s l, NoTargetName,
                NothingToResume]"
proof (intro conjI impI)
  assume "(cfg_build w = None \<or> cfg_build w = Some []) \<and> cfg_name w = Some n"
  then show "merge_resume ev b w = (Some (ResumeException (NoBuildBound n)), emit FindOne w)"
    by (elim conjE) (rule merge_resume_no_build [OF cfg found])
next
  assume "cfg_build w = Some h \<and> h \<noteq> [] \<and> \<not> truthy (get_val (last h) ''sources'')"
  then show "merge_resume ev b w = (Some (ResumeException NoSources), emit FindOne w)"
    by (elim conjE)
       (rule merge_resume_check_fails [OF cfg found], assumption, assumption, rule checks_no_sources,
        assumption+)
next
  assume "cfg_build w = Some h \<and> h \<noteq> [] \<and> truthy (get_val (last h) ''sources'')
       \<and> \<not> truthy (get_val (last h) ''step'')"
  then show "merge_resume ev b w = (Some (ResumeException NoStep), emit FindOne w)"
    by (elim conjE)
       (rule merge_resume_check_fails [OF cfg found], assumption, assumption, rule checks_no_step,
        assumption+)
next
  assume "cfg_build w = Some h \<and> h \<noteq> [] \<and> truthy (get_val (last h) ''sources'')
       \<and> truthy (get_val (last h) ''step'')
       \<and> py_in (get_val (last h) ''step'') (get_val (last h) ''sources'') = Inr False"
  then show "merge_resume ev b w
            = (Some (ResumeException (StepNotInSources (get_val (last h) ''step'')
                                        (get_val (last h) ''sources''))), emit FindOne w)"
    by (elim conjE)
       (rule merge_resume_check_fails [OF cfg found], assumption, assumption,
        rule checks_step_not_in_sources, assumption+)
next
  assume "cfg_build w = Some h \<and> h \<noteq> [] \<and> truthy (get_val (last h) ''sources'')
       \<and> truthy (get_val (last h) ''step'')
       \<and> py_in (get_val (last h) ''step'') (get_val (last h) ''sources'') = Inr True
       \<and> \<not> truthy (get_val (last h) ''target_name'')"
  then show "merge_resume ev b w = (Some (ResumeException NoTargetName), emit FindOne w)"
    by (elim conjE)
       (rule merge_resume_check_fails [OF cfg found], assumption, assumption, rule checks_no_target_name,
        assumption+)
next
  assume "cfg_build w = Some h \<and> h \<noteq> [] \<and> truthy (get_val (last h) ''sources'')
       \<and> truthy (get_val (last h) ''step'')
       \<and> py_in (get_val (last h) ''step'') (get_val (last h) ''sources'') = Inr True
       \<and> truthy (get_val (last h) ''target_name'')
       \<and> dict_get (last h) ''status'' \<noteq> Some (VStr ''failed'')"
  then show "merge_resume ev b w = (Some (ResumeException NothingToResume), emit FindOne w)"
    by (elim conjE)
       (rule merge_resume_check_fails [OF cfg found], assumption, assumption, rule checks_not_failed,
        assumption+)
next
  show "distinct [NoBuildBound n, NoSources, NoStep, StepNotInSources s l, NoTargetName,
                NothingToResume]"
    by simp
qed

text \<open>
  The six failures at six concrete histories: an empty one, and latest records without
  sources, without a step, at step \<^verbatim>\<open>init\<close>, without a target name, and finished.
\<close>

theorem merge_resume_distinct_failures_witness:
  "merge_resume env0 builder0 (ledger [])
     = (Some (ResumeException (NoBuildBound (VStr ''demo''))), emit FindOne (ledger []))
   \<and> merge_resume env0 builder0 (ledger [[(''status'', VStr ''failed'')]])
     = (Some (ResumeException NoSources), emit FindOne (ledger [[(''status'', VStr ''failed'')]]))
   \<and> merge_resume env0 builder0 (ledger [[(''sources'', VStrs [''geneinfo''])]])
     = (Some (ResumeException NoStep), emit FindOne (ledger [[(''sources'', VStrs [''geneinfo''])]]))
   \<and> merge_resume env0 builder0
        (ledger [[(''sources'', VStrs [''geneinfo'']), (''step'', VStr ''init'')]])
     = (Some (ResumeException (StepNotInSources (VStr ''init'') (VStrs [''geneinfo'']))),
        emit FindOne (ledger [[(''sources'', VStrs [''geneinfo'']), (''step'', VStr ''init'')]]))
   \<and> merge_resume env0 builder0
        (ledger [[(''sources'', VStrs [''geneinfo'']), (''step'', VStr ''geneinfo'')]])
     = (Some (ResumeException NoTargetName),
        emit FindOne (ledger [[(''sources'', VStrs [''geneinfo'']), (''step'', VStr ''geneinfo'')]]))
   \<and> merge_resume env0 builder0 (ledger [done_record])
     = (Some (ResumeException NothingToResume), emit FindOne (ledger [done_record]))"
proof (intro conjI)
  note defs = ledger_def get_val_def dict_get_def done_record_def
  have c: "build_config builder0
             = Some [(''sources'', [''geneinfo'', ''refseq'']), (''root'', [''refseq''])]"
    by (simp add: builder0_def)
  have f: "store_find_one env0 tr = None" for tr
    by (simp add: env0_def)
  show "merge_resume env0 builder0 (ledger [])
     = (Some (ResumeException (NoBuildBound (VStr ''demo''))), emit FindOne (ledger []))"
    using merge_resume_distinct_failures [OF c f, where w = "ledger []" and n = "VStr ''demo''"]
    by (simp add: defs)
  show "merge_resume env0 builder0 (ledger [[(''status'', VStr ''failed'')]])
     = (Some (ResumeException NoSources), emit FindOne (ledger [[(''status'', VStr ''failed'')]]))"
    using merge_resume_distinct_failures
      [OF c f, where w = "ledger [[(''status'', VStr ''failed'')]]"
                 and h = "[[(''status'', VStr ''failed'')]]"]
    by (simp add: defs)
  show "merge_resume env0 builder0 (ledger [[(''sources'', VStrs [''geneinfo''])]])
     = (Some (ResumeException NoStep), emit FindOne (ledger [[(''sources'', VStrs [''geneinfo''])]]))"
    using merge_resume_distinct_failures
      [OF c f, where w = "ledger [[(''sources'', VStrs [''geneinfo''])]]"
                 and h = "[[(''sources'', VStrs [''geneinfo''])]]"]
    by (simp add: defs)
  show "merge_resume env0 builder0
        (ledger [[(''sources'', VStrs [''geneinfo'']), (''step'', VStr ''init'')]])
     = (Some (ResumeException (StepNotInSources (VStr ''init'') (VStrs [''geneinfo'']))),
        emit FindOne (ledger [[(''sources'', VStrs [''geneinfo'']), (''step'', VStr ''init'')]]))"
    using merge_resume_distinct_failures
      [OF c f, where w = "ledger [[(''sources'', VStrs [''geneinfo'']), (''step'', VStr ''init'')]]"
                 and h = "[[(''sources'', VStrs [''geneinfo'']), (''step'', VStr ''init'')]]"]
    by (simp add: defs)
  show "merge_resume env0 builder0
        (ledger [[(''sources'', VStrs [''geneinfo'']), (''step'', VStr ''geneinfo'')]])
     = (Some (ResumeException NoTargetName),
        emit FindOne (ledger [[(''sources'', VStrs [''geneinfo'']), (''step'', VStr ''geneinfo'')]]))"
    using merge_resume_distinct_failures
      [OF c f, where w = "ledger [[(''sources'', VStrs [''geneinfo'']), (''step'', VStr ''geneinfo'')]]"
                 and h = "[[(''sources'', VStrs [''geneinfo'']), (''step'', VStr ''geneinfo'')]]"]
    by (simp add: defs)
  show "merge_resume env0 builder0 (ledger [done_record])
     = (Some (ResumeException NothingToResume), emit FindOne (ledger [done_record]))"
    using merge_resume_distinct_failures
      [OF c f, where w = "ledger [done_record]" and h = "[done_record]"]
    by (simp add: defs)
qed

lemma dropWhile_suffix:
  assumes "s \<in> set l"
  shows "\<exists>pre rest. l = pre @ s # rest \<and> s \<notin> set pre \<and> dropWhile (\<lambda>x. x \<noteq> s) l = s # rest"
proof -
  let ?P = "\<lambda>x. x \<noteq> s"
  have ne: "dropWhile ?P l \<noteq> []"
    using assms by (simp add: dropWhile_eq_Nil_conv)
  then obtain y rest where d: "dropWhile ?P l = y # rest"
    by (cases "dropWhile ?P l") auto
  have "\<not> ?P (hd (dropWhile ?P l))" using ne by (rule hd_dropWhile)
  with d have y: "y = s" by simp
  have "l = takeWhile ?P l @ dropWhile ?P l" by simp
  with d y have l: "l = takeWhile ?P l @ s # rest" by simp
  have "s \<notin> set (takeWhile ?P l)"
    by (auto dest: set_takeWhileD)
  with l d y show ?thesis by blast
qed

text \<open>
  Claim C7. On a builder with a configuration, once the store has returned the
  configuration document: when the latest record has a list of sources, a non-empty step
  that is one of them, a target name and the status \<^verbatim>\<open>failed\<close>, \<^verbatim>\<open>merge_resume\<close> takes the recorded
  sources from the first occurrence of the step on (the step included, nothing before it
  equal to the step), has the source store validate that suffix, and, unless the
  validation raises, returns what \<^verbatim>\<open>merge\<close> returns for that suffix and the recorded target
  name.
\<close>

theorem merge_resume_retries_from_failed_step:
  assumes "build_config b = Some c" and "store_find_one ev (trace w) = None"
    and "cfg_build w = Some h" and "h \<noteq> []"
    and "get_val (last h) ''sources'' = VStrs srcs"
    and "get_val (last h) ''step'' = VStr step"
    and "step \<noteq> []" and "step \<in> set srcs"
    and "truthy (get_val (last h) ''target_name'')"
    and "dict_get (last h) ''status'' = Some (VStr ''failed'')"
  shows "\<exists>pre rest.
           srcs = pre @ step # rest \<and> step \<notin> set pre
         \<and> merge_resume ev b w
             = (case validate_sources ev (trace (emit FindOne w)) (VStrs (step # rest)) of
                  Some e \<Rightarrow>
                    (Some e, emit (ValidateSources (VStrs (step # rest))) (emit FindOne w))
                | None \<Rightarrow>
                    merge ev b (SourceList (step # rest)) (get_val (last h) ''target_name'') 100000
                      (emit (LogInfo (ResumingBuild (last h)))
                         (emit (ValidateSources (VStrs (step # rest))) (emit FindOne w))))"
proof -
  from dropWhile_suffix [OF assms(8)] obtain pre rest where
    split: "srcs = pre @ step # rest" and pre: "step \<notin> set pre"
    and dw: "dropWhile (\<lambda>x. x \<noteq> step) srcs = step # rest"
    by (elim exE conjE)
  have lb: "last_build w = Inr (last h)"
    using assms(3,4) by (rule last_build_nonempty)
  have t1: "truthy (get_val (last h) ''sources'')"
    using assms(5,8) by auto
  have t2: "truthy (get_val (last h) ''step'')"
    using assms(6,7) by simp
  have t3: "py_in (get_val (last h) ''step'') (get_val (last h) ''sources'') = Inr True"
    using assms(5,6,8) by simp
  have chk: "resume_checks (last h) = None"
    using t1 t2 t3 assms(9,10) by (rule checks_pass)
  have rem: "remaining_sources (get_val (last h) ''sources'') (get_val (last h) ''step'')
               = Inr (VStrs (step # rest), SourceList (step # rest))"
    by (simp only: assms(5,6) remaining_sources.simps dw Let_def)
  have "merge_resume ev b w = resume_merge ev b (last h) (emit FindOne w)"
    by (simp add: merge_resume_def assms(1,2) lb chk)
  also have "\<dots> = (case validate_sources ev (trace (emit FindOne w)) (VStrs (step # rest)) of
                  Some e \<Rightarrow>
                    (Some e, emit (ValidateSources (VStrs (step # rest))) (emit FindOne w))
                | None \<Rightarrow>
                    merge ev b (SourceList (step # rest)) (get_val (last h) ''target_name'') 100000
                      (emit (LogInfo (ResumingBuild (last h)))
                         (emit (ValidateSources (VStrs (step # rest))) (emit FindOne w))))"
    unfolding resume_merge_def rem by simp
  finally have eq: "merge_resume ev b w
             = (case validate_sources ev (trace (emit FindOne w)) (VStrs (step # rest)) of
                  Some e \<Rightarrow>
                    (Some e, emit (ValidateSources (VStrs (step # rest))) (emit FindOne w))
                | None \<Rightarrow>
                    merge ev b (SourceList (step # rest)) (get_val (last h) ''target_name'') 100000
                      (emit (LogInfo (ResumingBuild (last h)))
                         (emit (ValidateSources (VStrs (step # rest))) (emit FindOne w))))" .
  show ?thesis
    by (rule exI [of _ pre], rule exI [of _ rest], intro conjI) (rule split, rule pre, rule eq)
qed

text \<open>
  A run that failed at \<^verbatim>\<open>refseq\<close>, the second of three sources: the resumed merge gets
  \<^verbatim>\<open>refseq\<close> and \<^verbatim>\<open>uniprot\<close>.
\<close>

theorem merge_resume_retries_from_failed_step_witness:
  "\<exists>pre rest.
     [''geneinfo'', ''refseq'', ''uniprot''] = pre @ ''refseq'' # rest \<and> ''refseq'' \<notin> set pre
   \<and> merge_resume env0 builder0 (ledger [failed_record])
       = (case validate_sources env0 (trace (emit FindOne (ledger [failed_record])))
                 (VStrs (''refseq'' # rest)) of
            Some e \<Rightarrow>
              (Some e, emit (ValidateSources (VStrs (''refseq'' # rest)))
                         (emit FindOne (ledger [failed_record])))
          | None \<Rightarrow>
              merge env0 builder0 (SourceList (''refseq'' # rest))
                (get_val (last [failed_record]) ''target_name'') 100000
                (emit (LogInfo (ResumingBuild (last [failed_record])))
                   (emit (ValidateSources (VStrs (''refseq'' # rest)))
                      (emit FindOne (ledger [failed_record])))))"
  by (rule merge_resume_retries_from_failed_step
        [where c = "[(''sources'', [''geneinfo'', ''refseq'']), (''root'', [''refseq''])]"])
     (simp_all add: ledger_def failed_record_def get_val_def dict_get_def builder0_def env0_def)

section \<open>Properties of the per-source merge\<close>

lemma update_modes_emit [simp]:
  "update_modes (trace (emit e w)) = update_modes (trace w) @ update_mode_of e"
  by (simp add: update_modes_def emit_def)

lemma fed_sources_emit [simp]:
  "fed_sources (trace (emit e w)) = fed_sources (trace w) @ fed_source_of e"
  by (simp add: fed_sources_def emit_def)

lemma init_mapper_modes:
  "update_modes (trace (snd (init_mapper ev b t w))) = update_modes (trace w)"
  by (simp add: init_mapper_def Let_def split: sum.splits bool.splits)

lemma init_mapper_fed:
  "fed_sources (trace (snd (init_mapper ev b t w))) = fed_sources (trace w)"
  by (simp add: init_mapper_def Let_def split: sum.splits bool.splits)

lemma init_mapper_cfg:
  "cfg_build (snd (init_mapper ev b t w)) = cfg_build w"
  by (simp add: init_mapper_def Let_def split: sum.splits bool.splits)

lemma get_mapper_modes:
  "update_modes (trace (snd (get_mapper_for_source ev b src w))) = update_modes (trace w)"
proof -
  have "\<And>t. update_modes (trace (snd (init_mapper ev b t (emit GetSrcMasterDocs w))))
            = update_modes (trace w)"
    by (simp add: init_mapper_modes)
  then show ?thesis
    by (auto simp: get_mapper_for_source_def Let_def split: sum.splits option.splits prod.splits)
       (metis snd_conv)+
qed

lemma get_mapper_fed:
  "fed_sources (trace (snd (get_mapper_for_source ev b src w))) = fed_sources (trace w)"
proof -
  have "\<And>t. fed_sources (trace (snd (init_mapper ev b t (emit GetSrcMasterDocs w))))
            = fed_sources (trace w)"
    by (simp add: init_mapper_fed)
  then show ?thesis
    by (auto simp: get_mapper_for_source_def Let_def split: sum.splits option.splits prod.splits)
       (metis snd_conv)+
qed

lemma get_mapper_cfg:
  "cfg_build (snd (get_mapper_for_source ev b src w)) = cfg_build w"
proof -
  have "\<And>t. cfg_build (snd (init_mapper ev b t (emit GetSrcMasterDocs w))) = cfg_build w"
    by (simp add: init_mapper_cfg)
  then show ?thesis
    by (auto simp: get_mapper_for_source_def Let_def split: sum.splits option.splits prod.splits)
       (metis snd_conv)+
qed

lemma update_batches_modes:
  "\<exists>k. update_modes (trace (snd (update_batches ev m up bs cnt w)))
        = update_modes (trace w) @ replicate k up"
proof (induction bs arbitrary: cnt w)
  case Nil
  show ?case by (rule exI [of _ 0]) simp
next
  case (Cons docs rest)
  show ?case
  proof (cases "process ev (trace w) m docs")
    case (Inl e)
    then show ?thesis by (intro exI [of _ 0]) (simp add: Let_def)
  next
    case (Inr docs')
    let ?w1 = "emit (Process m docs) w"
    let ?nd = "map clean_document_to_merge docs'"
    let ?w2 = "emit (Update ?nd up) ?w1"
    show ?thesis
    proof (cases "target_update ev (trace ?w1) ?nd up")
      case (Inl e)
      with Inr show ?thesis by (intro exI [of _ 1]) (simp add: Let_def)
    next
      case (Inr n)
      from Cons.IH [of "cnt + n" ?w2] obtain k where
        "update_modes (trace (snd (update_batches ev m up rest (cnt + n) ?w2)))
           = update_modes (trace ?w2) @ replicate k up" ..
      with Inr \<open>process ev (trace w) m docs = Inr docs'\<close> show ?thesis
        by (intro exI [of _ "Suc k"]) (simp add: Let_def)
    qed
  qed
qed

lemma update_batches_fed:
  "fed_sources (trace (snd (update_batches ev m up bs cnt w))) = fed_sources (trace w)"
  by (induction bs arbitrary: cnt w) (simp_all add: Let_def split: sum.splits)

lemma update_batches_cfg:
  "cfg_build (snd (update_batches ev m up bs cnt w)) = cfg_build w"
  by (induction bs arbitrary: cnt w) (simp_all add: Let_def split: sum.splits)

text \<open>
  Claim C8. Every write mode that \<^verbatim>\<open>merge_source\<close> passes to the target store's \<^verbatim>\<open>update\<close>
  for a source is the same Boolean: upsert exactly when no root-document key is declared
  (\<^verbatim>\<open>doc_root_key is None\<close>) or the source is among the declared root sources; otherwise
  every batch is written update-only.
\<close>

theorem merge_source_write_mode:
  "\<exists>k. update_modes (trace (snd (merge_source ev b src batch_size w)))
        = update_modes (trace w)
          @ replicate k (doc_root_key b = None
                         \<or> (\<exists>roots. get_root_document_sources b = Inr roots \<and> src \<in> set roots))"
proof -
  let ?flag = "doc_root_key b = None
               \<or> (\<exists>roots. get_root_document_sources b = Inr roots \<and> src \<in> set roots)"
  obtain r w1 where gm: "get_mapper_for_source ev b src w = (r, w1)"
    by (cases "get_mapper_for_source ev b src w")
  then have w1: "update_modes (trace w1) = update_modes (trace w)"
    using get_mapper_modes [of ev b src w] by simp
  show ?thesis
  proof (cases r)
    case (Inl e)
    with gm w1 show ?thesis by (intro exI [of _ 0]) (simp add: merge_source_def)
  next
    case (Inr mapper)
    show ?thesis
    proof (cases "upsert_mode b src")
      case (Inl e)
      with gm Inr w1 show ?thesis by (intro exI [of _ 0]) (simp add: merge_source_def)
    next
      case up: (Inr upsert)
      then have flag: "upsert = ?flag"
        by (auto simp: upsert_mode_def split: if_splits sum.splits)
      let ?w2 = "if upsert then w1 else emit (LogDebug (UpdateOnly src)) w1"
      let ?fed = "feed ev (trace ?w2) src batch_size"
      let ?w3 = "emit (Feed src batch_size) ?w2"
      obtain k where k: "update_modes (trace (snd (update_batches ev mapper upsert (fst ?fed) 0 ?w3)))
                          = update_modes (trace ?w3) @ replicate k upsert"
        using update_batches_modes by blast
      have w3: "update_modes (trace ?w3) = update_modes (trace w)"
        using w1 by simp
      have "update_modes (trace (snd (merge_source ev b src batch_size w)))
              = update_modes (trace (snd (update_batches ev mapper upsert (fst ?fed) 0 ?w3)))"
        using gm Inr up
        by (simp add: merge_source_def Let_def split: prod.splits sum.splits option.splits)
      with k w3 flag show ?thesis by (intro exI [of _ k]) simp
    qed
  qed
qed

text \<open>
  With \<^verbatim>\<open>refseq\<close> the only root source: its batch is upserted, the batch of \<^verbatim>\<open>geneinfo\<close> is
  written update-only, and with no root key declared \<^verbatim>\<open>geneinfo\<close> is upserted too.
\<close>

theorem merge_source_write_mode_witness:
  "update_modes (trace (snd (merge_source env0 builder0 ''refseq'' 100 (ledger [done_record]))))
     = [True]
   \<and> update_modes (trace (snd (merge_source env0 builder0 ''geneinfo'' 100 (ledger [done_record]))))
     = [False]
   \<and> update_modes (trace (snd (merge_source env0 (builder0\<lparr>doc_root_key := None\<rparr>) ''geneinfo'' 100
                                   (ledger [done_record]))))
     = [True]"
proof -
  have 1: "update_modes (trace (snd (merge_source env0 builder0 ''refseq'' 100 (ledger [done_record]))))
     = [True]"
    by code_simp
  have 2: "update_modes (trace (snd (merge_source env0 builder0 ''geneinfo'' 100 (ledger [done_record]))))
     = [False]"
    by code_simp
  have 3: "update_modes (trace (snd (merge_source env0 (builder0\<lparr>doc_root_key := None\<rparr>) ''geneinfo'' 100
                                   (ledger [done_record]))))
     = [True]"
    by code_simp
  show ?thesis
    using merge_source_write_mode [of env0 builder0 "''refseq''" 100 "ledger [done_record]"] 1 2 3
    by simp
qed

section \<open>Properties of the per-source loop\<close>

lemma trace_mongo_push [simp]: "trace (mongo_push r w) = trace w"
  by (simp add: mongo_push_def)

lemma trace_mongo_pop_first [simp]: "trace (mongo_pop_first w) = trace w"
  by (simp add: mongo_pop_first_def)

lemma pop_loop_fed:
  "fed_sources (trace (snd (pop_loop ev n w))) = fed_sources (trace w)"
  by (induction n arbitrary: w) (simp_all add: fed_sources_def emit_def split: option.splits)

lemma merge_extra_fed:
  "fed_sources (trace (snd (merge_extra ev info xb w))) = fed_sources (trace w)"
  by (simp add: merge_extra_def Let_def fed_sources_def emit_def split: option.splits)

lemma push_and_trim_fed:
  "fed_sources (trace (snd (push_and_trim ev b rb info w))) = fed_sources (trace w)"
  by (simp add: push_and_trim_def Let_def pop_loop_fed split: option.splits)

lemma register_status_fed:
  "fed_sources (trace (snd (register_status ev b st tr init xb w))) = fed_sources (trace w)"
proof (cases "build_config b")
  case None
  then show ?thesis by (simp add: register_status_def)
next
  case (Some c)
  let ?info = "build_info ev b st tr (trace w)"
  let ?w1 = "emit (LogInfo (RegisteredStatus ?info)) w"
  show ?thesis
  proof (cases "store_find_one ev (trace ?w1)")
    case (Some e)
    with \<open>build_config b = Some c\<close> show ?thesis by (simp add: register_status_def Let_def)
  next
    case None
    let ?w2 = "emit FindOne ?w1"
    obtain r w3 where me: "merge_extra ev ?info xb ?w2 = (r, w3)"
      by (cases "merge_extra ev ?info xb ?w2")
    with merge_extra_fed [of ev ?info xb ?w2]
    have w3: "fed_sources (trace w3) = fed_sources (trace w)" by simp
    show ?thesis
    proof (cases r)
      case (Inl e)
      with \<open>build_config b = Some c\<close> None me w3 show ?thesis
        by (simp add: register_status_def Let_def)
    next
      case (Inr info')
      with \<open>build_config b = Some c\<close> None me w3 show ?thesis
        by (simp add: register_status_def Let_def push_and_trim_fed)
    qed
  qed
qed

lemma merge_source_fed:
  "fed_sources (trace (snd (merge_source ev b src bs w))) = fed_sources (trace w)
     \<and> (\<exists>e. fst (merge_source ev b src bs w) = Inl e)
   \<or> fed_sources (trace (snd (merge_source ev b src bs w))) = fed_sources (trace w) @ [src]"
proof -
  obtain r w1 where gm: "get_mapper_for_source ev b src w = (r, w1)"
    by (cases "get_mapper_for_source ev b src w")
  then have w1: "fed_sources (trace w1) = fed_sources (trace w)"
    using get_mapper_fed [of ev b src w] by simp
  show ?thesis
  proof (cases r)
    case (Inl e)
    with gm w1 show ?thesis by (simp add: merge_source_def)
  next
    case (Inr mapper)
    show ?thesis
    proof (cases "upsert_mode b src")
      case (Inl e)
      with gm Inr w1 show ?thesis by (simp add: merge_source_def)
    next
      case up: (Inr upsert)
      let ?w2 = "if upsert then w1 else emit (LogDebug (UpdateOnly src)) w1"
      let ?fed = "feed ev (trace ?w2) src bs"
      let ?w3 = "emit (Feed src bs) ?w2"
      have w3: "fed_sources (trace ?w3) = fed_sources (trace w) @ [src]"
        using w1 by simp
      have "fed_sources (trace (snd (merge_source ev b src bs w)))
              = fed_sources (trace (snd (update_batches ev mapper upsert (fst ?fed) 0 ?w3)))"
        using gm Inr up
        by (simp add: merge_source_def Let_def split: prod.splits sum.splits option.splits)
      with w3 show ?thesis by (simp add: update_batches_fed)
    qed
  qed
qed

lemma merge_loop_fed:
  "\<exists>k. fed_sources (trace (snd (merge_loop ev b bs n i srcs st w)))
          = fed_sources (trace w) @ take k srcs
        \<and> ((\<exists>e. fst (merge_loop ev b bs n i srcs st w) = Inl e) \<or> k = length srcs)"
proof (induction srcs arbitrary: i st w)
  case Nil
  show ?case by simp
next
  case (Cons src rest)
  let ?xb = "Some [(''step'', VStr src), (''progress'', VStr (progress_string (i + 1) n))]"
  obtain r w1 where rs: "register_status ev b ''success'' True False ?xb w = (r, w1)"
    by (cases "register_status ev b ''success'' True False ?xb w")
  then have w1: "fed_sources (trace w1) = fed_sources (trace w)"
    using register_status_fed [of ev b "''success''" True False ?xb w] by simp
  show ?case
  proof (cases r)
    case (Some e)
    with rs w1 show ?thesis by (intro exI [of _ 0]) simp
  next
    case None
    obtain r2 w2 where ms: "merge_source ev b src bs w1 = (r2, w2)"
      by (cases "merge_source ev b src bs w1")
    show ?thesis
    proof (cases r2)
      case (Inl e)
      from merge_source_fed [of ev b src bs w1] ms w1
      have "fed_sources (trace w2) = fed_sources (trace w) @ take 0 (src # rest)
            \<or> fed_sources (trace w2) = fed_sources (trace w) @ take 1 (src # rest)"
        by auto
      then obtain k where "fed_sources (trace w2) = fed_sources (trace w) @ take k (src # rest)"
        by blast
      with rs None ms Inl show ?thesis by (intro exI [of _ k]) simp
    next
      case (Inr src_stats)
      from merge_source_fed [of ev b src bs w1] ms w1 Inr
      have w2: "fed_sources (trace w2) = fed_sources (trace w) @ [src]" by auto
      from Cons.IH [of "i + 1" "dict_update st src_stats" w2] obtain k where
        k: "fed_sources (trace (snd (merge_loop ev b bs n (i + 1) rest (dict_update st src_stats) w2)))
              = fed_sources (trace w2) @ take k rest
            \<and> ((\<exists>e. fst (merge_loop ev b bs n (i + 1) rest (dict_update st src_stats) w2) = Inl e)
                 \<or> k = length rest)" ..
      with rs None ms Inr w2 show ?thesis by (intro exI [of _ "Suc k"]) simp
    qed
  qed
qed

lemma set_py_list_set [simp]: "set (py_list_set rank xs) = set xs"
  by (simp add: py_list_set_def)

lemma set_root_sources: "set (root_sources rank roots names) = set names \<inter> set roots"
  by (auto simp: root_sources_def)

lemma set_other_sources: "set (other_sources rank roots names) = set names - set roots"
  by (auto simp: other_sources_def set_root_sources)

lemma take_append_split:
  "\<exists>rs' os'. take k (rs @ os) = rs' @ os' \<and> set rs' \<subseteq> set rs \<and> set os' \<subseteq> set os"
proof -
  have "take k (rs @ os) = take k rs @ take (k - length rs) os" by simp
  moreover have "set (take k rs) \<subseteq> set rs" by (rule set_take_subset)
  moreover have "set (take (k - length rs) os) \<subseteq> set os" by (rule set_take_subset)
  ultimately show ?thesis by blast
qed

text \<open>
  Claim C3. Whatever the order of \<^verbatim>\<open>source_names\<close> and whatever order the sets iterate in,
  the sources that \<^verbatim>\<open>merge_sources\<close> reads from the feeder are a list \<open>rs @ os\<close>: \<open>rs\<close> holds
  only root sources among the names given, \<open>os\<close> only non-root ones, so every root source
  is processed before any non-root source. The list is an initial part of the reordered
  list (an exception ends the loop early); when no exception is raised, every name given
  is processed.
\<close>

theorem merge_sources_roots_first:
  assumes roots: "get_root_document_sources b = Inr roots"
  shows "\<exists>k rs os.
           fed_sources (trace (snd (merge_sources ev b names bs w)))
             = fed_sources (trace w) @ rs @ os
         \<and> rs @ os = take k (reorder (set_rank ev (trace w)) roots names)
         \<and> set rs \<subseteq> set names \<inter> set roots
         \<and> set os \<subseteq> set names - set roots
         \<and> ((\<exists>e. fst (merge_sources ev b names bs w) = Inl e)
              \<or> set (rs @ os) = set names)"
proof -
  let ?rank = "set_rank ev (trace w)"
  let ?order = "reorder ?rank roots names"
  let ?w1 = "emit (LogInfo (MergingSources ?order)) w"
  let ?loop = "merge_loop ev b bs (length ?order) 0 ?order [] ?w1"
  obtain k where k: "fed_sources (trace (snd ?loop)) = fed_sources (trace ?w1) @ take k ?order"
    and full: "(\<exists>e. fst ?loop = Inl e) \<or> k = length ?order"
    using merge_loop_fed [of ev b bs "length ?order" 0 ?order "[]" ?w1] by blast
  have ms: "fed_sources (trace (snd (merge_sources ev b names bs w)))
              = fed_sources (trace (snd ?loop))"
    using roots by (simp add: merge_sources_def Let_def split: prod.splits sum.splits option.splits)
  have fail: "(\<exists>e. fst ?loop = Inl e) \<Longrightarrow> (\<exists>e. fst (merge_sources ev b names bs w) = Inl e)"
    using roots by (auto simp: merge_sources_def Let_def split: prod.splits sum.splits option.splits)
  obtain rs os where split: "take k ?order = rs @ os"
    and rs: "set rs \<subseteq> set (root_sources ?rank roots names)"
    and os: "set os \<subseteq> set (other_sources ?rank roots names)"
    using take_append_split [of k "root_sources ?rank roots names" "other_sources ?rank roots names"]
    by (auto simp: reorder_def)
  have all: "k = length ?order \<Longrightarrow> set (rs @ os) = set names"
  proof -
    assume "k = length ?order"
    then have "rs @ os = ?order" using split by simp
    then have "set (rs @ os) = set ?order" by simp
    also have "\<dots> = set names"
      by (auto simp: reorder_def set_root_sources set_other_sources)
    finally show ?thesis .
  qed
  show ?thesis
    apply (rule exI [of _ k], rule exI [of _ rs], rule exI [of _ os])
    using ms k split rs os full fail all
    by (auto simp: set_root_sources set_other_sources)
qed

text \<open>
  The spec's example: \<^verbatim>\<open>sources=["geneinfo","refseq"]\<close> with \<^verbatim>\<open>refseq\<close> the only root source
  is processed as \<^verbatim>\<open>refseq\<close>, then \<^verbatim>\<open>geneinfo\<close>.
\<close>

theorem merge_sources_roots_first_witness:
  "fed_sources (trace (snd (merge_sources env0 builder0 [''geneinfo'', ''refseq''] 100
                              (ledger [done_record]))))
     = [''refseq'', ''geneinfo'']
   \<and> (\<exists>k rs os.
        fed_sources (trace (snd (merge_sources env0 builder0 [''geneinfo'', ''refseq''] 100
                                   (ledger [done_record]))))
          = fed_sources (trace (ledger [done_record])) @ rs @ os
      \<and> rs @ os = take k (reorder (set_rank env0 (trace (ledger [done_record]))) [''refseq'']
                             [''geneinfo'', ''refseq''])
      \<and> set rs \<subseteq> set [''geneinfo'', ''refseq''] \<inter> set [''refseq'']
      \<and> set os \<subseteq> set [''geneinfo'', ''refseq''] - set [''refseq''])"
proof -
  have r: "get_root_document_sources builder0 = Inr [''refseq'']"
    by (simp add: get_root_document_sources_def builder0_def dict_get_def)
  have e: "fed_sources (trace (snd (merge_sources env0 builder0 [''geneinfo'', ''refseq''] 100
                              (ledger [done_record]))))
     = [''refseq'', ''geneinfo'']"
    by code_simp
  from merge_sources_roots_first [OF r, of env0 "[''geneinfo'', ''refseq'']" 100 "ledger [done_record]"]
  obtain k rs os where
    "fed_sources (trace (snd (merge_sources env0 builder0 [''geneinfo'', ''refseq''] 100
                                   (ledger [done_record]))))
          = fed_sources (trace (ledger [done_record])) @ rs @ os"
    "rs @ os = take k (reorder (set_rank env0 (trace (ledger [done_record]))) [''refseq'']
                             [''geneinfo'', ''refseq''])"
    "set rs \<subseteq> set [''geneinfo'', ''refseq''] \<inter> set [''refseq'']"
    "set os \<subseteq> set [''geneinfo'', ''refseq''] - set [''refseq'']"
    by (elim exE conjE)
  then show ?thesis using e by (intro conjI exI [of _ k] exI [of _ rs] exI [of _ os])
qed

section \<open>Properties of \<^verbatim>\<open>merge\<close>\<close>

lemma register_status_has_record:
  assumes "build_config b = Some c" and "0 \<le> max_build_status b" and "has_record w"
    and "reliable_store ev"
  shows "fst (register_status ev b st tr init xb w) = None
         \<and> has_record (snd (register_status ev b st tr init xb w))"
proof -
  from assms(3) obtain h where h: "cfg_build w = Some h" and ne: "h \<noteq> []"
    by (auto simp: has_record_def split: option.splits)
  have len: "nat (int (length h) - max_build_status b) \<le> length h"
    using assms(2) by simp
  from register_status_history [OF assms(1) h _ assms(4), of xb st tr init] ne
  show ?thesis
    using len by (auto simp: has_record_def Let_def split: option.splits)
qed

text \<open>
  When the registration of \<^verbatim>\<open>"failed"\<close> with an error description returns, the history
  held a record, its last record now carries the status and the description, and the
  records before it are untouched.
\<close>

lemma register_failed_outcome:
  assumes rs: "register_status ev b ''failed'' False False (Some [(''err'', VStr r)]) w = (None, w')"
  shows "\<exists>h h'. cfg_build w = Some h \<and> h \<noteq> [] \<and> cfg_build w' = Some h' \<and> h' \<noteq> []
           \<and> butlast h' = butlast h
           \<and> get_val (last h') ''status'' = VStr ''failed''
           \<and> get_val (last h') ''err'' = VStr r"
proof -
  let ?bi = "build_info ev b ''failed'' False (trace w)"
  let ?info = "dict_update ?bi [(''err'', VStr r)]"
  let ?w2 = "emit FindOne (emit (LogInfo (RegisteredStatus ?bi)) w)"
  from rs obtain c where c: "build_config b = Some c"
    by (cases "build_config b") (simp_all add: register_status_def)
  from rs c have f: "store_find_one ev (trace (emit (LogInfo (RegisteredStatus ?bi)) w)) = None"
    by (cases "store_find_one ev (trace (emit (LogInfo (RegisteredStatus ?bi)) w))")
       (simp_all add: register_status_def Let_def)
  from rs c f have me: "merge_extra ev ?bi (Some [(''err'', VStr r)]) ?w2 = (Inr ?info, w')"
    by (cases "merge_extra ev ?bi (Some [(''err'', VStr r)]) ?w2")
       (auto simp: register_status_def Let_def merge_extra_def split: sum.splits option.splits if_splits)
  from me obtain h where h: "cfg_build w = Some h"
    by (cases "cfg_build w") (simp_all add: merge_extra_def Let_def)
  from me h have ne: "h \<noteq> []"
    by (auto simp: merge_extra_def Let_def)
  from me h ne have w': "cfg_build w' = Some (butlast h @ [dict_update (last h) ?info])"
    by (auto simp: merge_extra_def Let_def split: option.splits)
  have info: "?info = ?bi @ [(''err'', VStr r)]"
    by (simp add: dict_update_def build_info_def)
  have s: "get_val (last (butlast h @ [dict_update (last h) ?info])) ''status'' = VStr ''failed''"
    by (simp add: get_val_def dict_get_update info) (simp add: build_info_def dict_get_def)
  have e: "get_val (last (butlast h @ [dict_update (last h) ?info])) ''err'' = VStr r"
    by (simp add: get_val_def dict_get_update info) (simp add: build_info_def dict_get_def)
  from h ne w' s e show ?thesis
    by (intro exI [of _ h] exI [of _ "butlast h @ [dict_update (last h) ?info]"]) simp
qed

lemma merge_source_cfg: "cfg_build (snd (merge_source ev b src bs w)) = cfg_build w"
proof -
  obtain r w1 where gm: "get_mapper_for_source ev b src w = (r, w1)"
    by (cases "get_mapper_for_source ev b src w")
  then have w1: "cfg_build w1 = cfg_build w"
    using get_mapper_cfg [of ev b src w] by simp
  show ?thesis
  proof (cases r)
    case (Inl e)
    with gm w1 show ?thesis by (simp add: merge_source_def)
  next
    case (Inr mapper)
    show ?thesis
    proof (cases "upsert_mode b src")
      case (Inl e)
      with gm Inr w1 show ?thesis by (simp add: merge_source_def)
    next
      case up: (Inr upsert)
      let ?w2 = "if upsert then w1 else emit (LogDebug (UpdateOnly src)) w1"
      let ?fed = "feed ev (trace ?w2) src bs"
      let ?w3 = "emit (Feed src bs) ?w2"
      have "cfg_build (snd (merge_source ev b src bs w))
              = cfg_build (snd (update_batches ev mapper upsert (fst ?fed) 0 ?w3))"
        using gm Inr up
        by (simp add: merge_source_def Let_def split: prod.splits sum.splits option.splits)
      with w1 show ?thesis by (simp add: update_batches_cfg)
    qed
  qed
qed

lemma merge_loop_has_record:
  assumes "build_config b = Some c" and "0 \<le> max_build_status b" and "reliable_store ev"
  shows "has_record w \<Longrightarrow> has_record (snd (merge_loop ev b bs n i srcs st w))"
proof (induction srcs arbitrary: i st w)
  case Nil
  then show ?case by simp
next
  case (Cons src rest)
  let ?xb = "Some [(''step'', VStr src), (''progress'', VStr (progress_string (i + 1) n))]"
  obtain r w1 where rs: "register_status ev b ''success'' True False ?xb w = (r, w1)"
    by (cases "register_status ev b ''success'' True False ?xb w")
  with register_status_has_record [OF assms(1,2) Cons.prems assms(3), of "''success''" True False ?xb]
  have r: "r = None" and w1: "has_record w1" by simp_all
  obtain r2 w2 where ms: "merge_source ev b src bs w1 = (r2, w2)"
    by (cases "merge_source ev b src bs w1")
  with merge_source_cfg [of ev b src bs w1] w1 have w2: "has_record w2"
    by (simp add: has_record_def)
  show ?case
  proof (cases r2)
    case (Inl e)
    with rs r ms w2 show ?thesis by simp
  next
    case (Inr src_stats)
    with rs r ms Cons.IH [OF w2] show ?thesis by simp
  qed
qed

lemma merge_sources_has_record:
  assumes "build_config b = Some c" and "0 \<le> max_build_status b" and "has_record w"
    and "reliable_store ev"
  shows "has_record (snd (merge_sources ev b names bs w))"
proof (cases "get_root_document_sources b")
  case (Inl e)
  with assms(3) show ?thesis by (simp add: merge_sources_def)
next
  case (Inr roots)
  let ?order = "reorder (set_rank ev (trace w)) roots names"
  let ?w1 = "emit (LogInfo (MergingSources ?order)) w"
  let ?loop = "merge_loop ev b bs (length ?order) 0 ?order [] ?w1"
  obtain r2 w2 where loop: "?loop = (r2, w2)" by (cases ?loop)
  have "has_record (snd ?loop)"
    using merge_loop_has_record [OF assms(1,2,4)] assms(3) by simp
  with loop have "has_record w2" by simp
  with Inr loop show ?thesis
    by (cases r2) (simp_all add: merge_sources_def Let_def split: option.splits)
qed

text \<open>
  With a store that never raises, a bound configuration whose history holds a record and a
  non-negative \<^verbatim>\<open>max_build_status\<close>, the history still holds a record when the \<^verbatim>\<open>try\<close> block
  is left, so that the handler's registration finds a record to update.
\<close>

lemma merge_try_has_record:
  assumes "build_config b = Some c" and "0 \<le> max_build_status b" and "has_record w"
    and "reliable_store ev"
  shows "has_record (snd (merge_try ev b srcs bs w))"
proof -
  let ?xb = "Some [(''step'', VStr ''init''), (''sources'', VStrs srcs)]"
  obtain r w1 where rs: "register_status ev b ''building'' True True ?xb w = (r, w1)"
    by (cases "register_status ev b ''building'' True True ?xb w")
  with register_status_has_record [OF assms, of "''building''" True True ?xb]
  have r: "r = None" and w1: "has_record w1" by simp_all
  show ?thesis
  proof (cases "parallel_engine b")
    case True
    with rs r w1 show ?thesis by (simp add: merge_try_def)
  next
    case False
    obtain r2 w2 where ms: "merge_sources ev b srcs bs w1 = (r2, w2)"
      by (cases "merge_sources ev b srcs bs w1")
    with merge_sources_has_record [OF assms(1,2) w1 assms(4), of srcs bs] have w2: "has_record w2"
      by simp
    show ?thesis
    proof (cases r2)
      case (Inl e)
      with rs r False ms w2 show ?thesis by (simp add: merge_try_def)
    next
      case (Inr stats)
      let ?w4 = "emit GetSrcVersions (emit PostMerge w2)"
      have w4: "has_record ?w4" using w2 by simp
      have "\<And>v. has_record (snd (register_status ev b ''success'' False False
                    (Some [(''stats'', VStats stats), (''src_versions'', v)]) ?w4))"
        using register_status_has_record [OF assms(1,2) w4 assms(4)] by simp
      with rs r False ms Inr w2 show ?thesis
        by (simp add: merge_try_def Let_def split: option.splits sum.splits)
    qed
  qed
qed

lemma normalize_sources_cfg:
  "cfg_build (snd (normalize_sources ev b sources w)) = cfg_build w"
  by (simp add: normalize_sources_def Let_def split: sources_arg.splits option.splits)

lemma bind_target_name_cfg:
  "cfg_build (snd (bind_target_name ev tname w)) = cfg_build w"
  by (simp add: bind_target_name_def)

lemma merge_finally_no_stats:
  "self_stats b = None \<Longrightarrow> merge_finally ev b r w = (r, w)"
  by (simp add: merge_finally_def)

lemma register_failed_completes:
  assumes "build_config b = Some c" and "has_record w" and "reliable_store ev"
  shows "fst (register_status ev b ''failed'' False False (Some x) w) = None"
proof -
  from assms(2) obtain h where h: "cfg_build w = Some h" and ne: "h \<noteq> []"
    by (auto simp: has_record_def split: option.splits)
  from register_status_history [OF assms(1) h _ assms(3), of "Some x" "''failed''" False False] ne
  show ?thesis by simp
qed

text \<open>An exception on its way out of \<^verbatim>\<open>merge\<close> is never turned into a normal return.\<close>

lemma merge_finally_keeps_failure: "fst (merge_finally ev b (Some e) w) \<noteq> None"
  by (simp add: merge_finally_def Let_def split: option.splits sum.splits)

lemma merge_except_fails: "fst (merge_except ev b e w) \<noteq> None"
  by (simp add: merge_except_def split: prod.splits option.splits)

lemma merge_try_failure_reaches_caller:
  assumes n: "normalize_sources ev b sources (emit StartTimer w) = (Inr srcs, w1)"
    and t: "bind_target_name ev tname w1 = (None, w2)"
    and m: "merge_try ev b srcs bs w2 = (Some e, w3)"
  shows "fst (merge ev b sources tname bs w) \<noteq> None"
proof (cases "caught e")
  case False
  then show ?thesis
    using merge_finally_keeps_failure [of ev b e w3] by (simp add: merge_def n t m)
next
  case True
  obtain r w4 where me: "merge_except ev b e w3 = (r, w4)"
    by (cases "merge_except ev b e w3")
  with merge_except_fails [of ev b e w3] obtain e' where r: "r = Some e'" by auto
  from True me r show ?thesis
    using merge_finally_keeps_failure [of ev b e' w4] by (simp add: merge_def n t m)
qed

text \<open>
  Claim C6, as amended. The claim as stated fails: \<^verbatim>\<open>merge\<close> runs the target's \<^verbatim>\<open>drop\<close> and
  \<^verbatim>\<open>prepare\<close>, reads the declared sources and binds the target name before its \<^verbatim>\<open>try\<close>
  block, and an exception raised there reaches the caller with nothing registered. What
  holds, for an exception \<open>e\<close> raised inside the \<^verbatim>\<open>try\<close> block (by the initial registration,
  the per-source loop, \<^verbatim>\<open>post_merge\<close>, \<^verbatim>\<open>get_src_versions\<close> or the final registration):
  \<^item> the caller always observes an exception;
  \<^item> if \<open>e\<close> is one that \<^verbatim>\<open>except (KeyboardInterrupt, Exception)\<close> catches, the handler
    registers \<^verbatim>\<open>"failed"\<close> with \<^verbatim>\<open>repr(e)\<close>; on a builder without a \<^verbatim>\<open>_stats\<close> attribute, when
    that registration returns, the last record of the history carries the status
    \<^verbatim>\<open>failed\<close> and the description, the records before it are as they were, and \<open>e\<close>
    itself is re-raised; when the registration raises, its exception reaches the caller
    in place of \<open>e\<close>;
  \<^item> if \<open>e\<close> is not caught (\<^verbatim>\<open>SystemExit\<close>, \<^verbatim>\<open>GeneratorExit\<close>), it reaches the caller with
    nothing registered.
  An exception raised by the steps before the \<^verbatim>\<open>try\<close> block reaches the caller with the
  history as it was.
\<close>

theorem merge_registers_failure_and_reraises:
  "(normalize_sources ev b sources (emit StartTimer w) = (Inr srcs, w1)
    \<and> bind_target_name ev tname w1 = (None, w2)
    \<and> merge_try ev b srcs bs w2 = (Some e, w3)
    \<longrightarrow> fst (merge ev b sources tname bs w) \<noteq> None)
   \<and> (self_stats b = None
      \<and> normalize_sources ev b sources (emit StartTimer w) = (Inr srcs, w1)
      \<and> bind_target_name ev tname w1 = (None, w2)
      \<and> merge_try ev b srcs bs w2 = (Some e, w3)
      \<and> caught e
      \<and> register_status ev b ''failed'' False False (Some [(''err'', VStr (repr ev e))])
           (emit (LogError (Traceback e)) w3) = (None, w4)
      \<longrightarrow> merge ev b sources tname bs w = (Some e, w4)
          \<and> (\<exists>h'. cfg_build w4 = Some h' \<and> h' \<noteq> []
                \<and> map_option butlast (cfg_build w3) = Some (butlast h')
                \<and> get_val (last h') ''status'' = VStr ''failed''
                \<and> get_val (last h') ''err'' = VStr (repr ev e)))
   \<and> (self_stats b = None
      \<and> normalize_sources ev b sources (emit StartTimer w) = (Inr srcs, w1)
      \<and> bind_target_name ev tname w1 = (None, w2)
      \<and> merge_try ev b srcs bs w2 = (Some e, w3)
      \<and> caught e
      \<and> register_status ev b ''failed'' False False (Some [(''err'', VStr (repr ev e))])
           (emit (LogError (Traceback e)) w3) = (Some e', w4)
      \<longrightarrow> merge ev b sources tname bs w = (Some e', w4))
   \<and> (self_stats b = None
      \<and> normalize_sources ev b sources (emit StartTimer w) = (Inr srcs, w1)
      \<and> bind_target_name ev tname w1 = (None, w2)
      \<and> merge_try ev b srcs bs w2 = (Some e, w3)
      \<and> \<not> caught e
      \<longrightarrow> merge ev b sources tname bs w = (Some e, w3))
   \<and> (normalize_sources ev b sources (emit StartTimer w) = (Inl e, w1)
      \<longrightarrow> merge ev b sources tname bs w = (Some e, w1) \<and> cfg_build w1 = cfg_build w)
   \<and> (normalize_sources ev b sources (emit StartTimer w) = (Inr srcs, w1)
      \<and> bind_target_name ev tname w1 = (Some e, w2)
      \<longrightarrow> merge ev b sources tname bs w = (Some e, w2) \<and> cfg_build w2 = cfg_build w)"
proof -
  have p1: "normalize_sources ev b sources (emit StartTimer w) = (Inr srcs, w1)
    \<and> bind_target_name ev tname w1 = (None, w2)
    \<and> merge_try ev b srcs bs w2 = (Some e, w3)
    \<longrightarrow> fst (merge ev b sources tname bs w) \<noteq> None"
    using merge_try_failure_reaches_caller [of ev b sources w srcs w1 tname w2 bs e w3]
    by (intro impI) (elim conjE)
  have p2: "self_stats b = None
      \<and> normalize_sources ev b sources (emit StartTimer w) = (Inr srcs, w1)
      \<and> bind_target_name ev tname w1 = (None, w2)
      \<and> merge_try ev b srcs bs w2 = (Some e, w3)
      \<and> caught e
      \<and> register_status ev b ''failed'' False False (Some [(''err'', VStr (repr ev e))])
           (emit (LogError (Traceback e)) w3) = (None, w4)
      \<longrightarrow> merge ev b sources tname bs w = (Some e, w4)
          \<and> (\<exists>h'. cfg_build w4 = Some h' \<and> h' \<noteq> []
                \<and> map_option butlast (cfg_build w3) = Some (butlast h')
                \<and> get_val (last h') ''status'' = VStr ''failed''
                \<and> get_val (last h') ''err'' = VStr (repr ev e))"
  proof (intro impI, elim conjE)
    assume st: "self_stats b = None"
      and n: "normalize_sources ev b sources (emit StartTimer w) = (Inr srcs, w1)"
      and t: "bind_target_name ev tname w1 = (None, w2)"
      and m: "merge_try ev b srcs bs w2 = (Some e, w3)"
      and c: "caught e"
      and rs: "register_status ev b ''failed'' False False (Some [(''err'', VStr (repr ev e))])
                 (emit (LogError (Traceback e)) w3) = (None, w4)"
    from register_failed_outcome [OF rs] obtain h h' where
      h: "cfg_build w3 = Some h" and h': "cfg_build w4 = Some h'" "h' \<noteq> []"
      and bl: "butlast h' = butlast h"
      and props: "get_val (last h') ''status'' = VStr ''failed''"
        "get_val (last h') ''err'' = VStr (repr ev e)"
      by auto
    have "merge_except ev b e w3 = (Some e, w4)"
      by (simp add: merge_except_def rs)
    then have mg: "merge ev b sources tname bs w = (Some e, w4)"
      using c by (simp add: merge_def n t m merge_finally_no_stats [OF st])
    have ex: "\<exists>h'. cfg_build w4 = Some h' \<and> h' \<noteq> []
                \<and> map_option butlast (cfg_build w3) = Some (butlast h')
                \<and> get_val (last h') ''status'' = VStr ''failed''
                \<and> get_val (last h') ''err'' = VStr (repr ev e)"
      using h h' bl props by (intro exI [of _ h']) simp
    from mg ex show "merge ev b sources tname bs w = (Some e, w4)
          \<and> (\<exists>h'. cfg_build w4 = Some h' \<and> h' \<noteq> []
                \<and> map_option butlast (cfg_build w3) = Some (butlast h')
                \<and> get_val (last h') ''status'' = VStr ''failed''
                \<and> get_val (last h') ''err'' = VStr (repr ev e))"
      by (rule conjI)
  qed
  have p3: "self_stats b = None
      \<and> normalize_sources ev b sources (emit StartTimer w) = (Inr srcs, w1)
      \<and> bind_target_name ev tname w1 = (None, w2)
      \<and> merge_try ev b srcs bs w2 = (Some e, w3)
      \<and> caught e
      \<and> register_status ev b ''failed'' False False (Some [(''err'', VStr (repr ev e))])
           (emit (LogError (Traceback e)) w3) = (Some e', w4)
      \<longrightarrow> merge ev b sources tname bs w = (Some e', w4)"
    by (simp add: merge_def merge_except_def merge_finally_no_stats)
  have p4: "self_stats b = None
      \<and> normalize_sources ev b sources (emit StartTimer w) = (Inr srcs, w1)
      \<and> bind_target_name ev tname w1 = (None, w2)
      \<and> merge_try ev b srcs bs w2 = (Some e, w3)
      \<and> \<not> caught e
      \<longrightarrow> merge ev b sources tname bs w = (Some e, w3)"
    by (simp add: merge_def merge_finally_no_stats)
  have p5: "normalize_sources ev b sources (emit StartTimer w) = (Inl e, w1)
      \<longrightarrow> merge ev b sources tname bs w = (Some e, w1) \<and> cfg_build w1 = cfg_build w"
  proof (intro impI conjI)
    assume n: "normalize_sources ev b sources (emit StartTimer w) = (Inl e, w1)"
    then show "merge ev b sources tname bs w = (Some e, w1)"
      by (simp add: merge_def)
    show "cfg_build w1 = cfg_build w"
      using normalize_sources_cfg [of ev b sources "emit StartTimer w"] n by simp
  qed
  have p6: "normalize_sources ev b sources (emit StartTimer w) = (Inr srcs, w1)
      \<and> bind_target_name ev tname w1 = (Some e, w2)
      \<longrightarrow> merge ev b sources tname bs w = (Some e, w2) \<and> cfg_build w2 = cfg_build w"
  proof (intro impI conjI)
    assume a: "normalize_sources ev b sources (emit StartTimer w) = (Inr srcs, w1)
      \<and> bind_target_name ev tname w1 = (Some e, w2)"
    then show "merge ev b sources tname bs w = (Some e, w2)"
      by (simp add: merge_def)
    have "cfg_build w1 = cfg_build w"
      using normalize_sources_cfg [of ev b sources "emit StartTimer w"] a by simp
    moreover have "cfg_build w2 = cfg_build w1"
      using bind_target_name_cfg [of ev tname w1] a by simp
    ultimately show "cfg_build w2 = cfg_build w" by simp
  qed
  from p1 p2 p3 p4 p5 p6 show ?thesis by (intro conjI)
qed

text \<open>
  Four runs after a finished one. An operator's interrupt while the second source is read:
  the caller sees \<^verbatim>\<open>KeyboardInterrupt\<close> and the last record is \<^verbatim>\<open>failed\<close> with its
  description. A store that refuses the push of the initial registration: the caller sees
  the store's exception, and the handler's registration, which pushes nothing, has written
  \<^verbatim>\<open>failed\<close> and the description into the last record. The interrupt again, with a store
  that is lost once the failure is logged: the caller sees the store's exception, not the
  interrupt. A \<^verbatim>\<open>SystemExit\<close> while the second source is read: the caller sees it, and no
  record is \<^verbatim>\<open>failed\<close>.
\<close>

theorem merge_registers_failure_and_reraises_witness:
  "(\<exists>w' h'. merge env_interrupted builder0 (SourceList [''geneinfo'', ''refseq'']) VNone 100
              (ledger [done_record]) = (Some KeyboardInterrupt, w')
         \<and> cfg_build w' = Some h' \<and> h' \<noteq> []
         \<and> get_val (last h') ''status'' = VStr ''failed''
         \<and> get_val (last h') ''err'' = VStr ''KeyboardInterrupt()'')
   \<and> (\<exists>w' h'. merge env_push_fails builder0 (SourceList [''geneinfo'', ''refseq'']) VNone 100
              (ledger [done_record]) = (Some (External ''update refused''), w')
         \<and> cfg_build w' = Some h' \<and> h' \<noteq> []
         \<and> get_val (last h') ''status'' = VStr ''failed''
         \<and> get_val (last h') ''err'' = VStr ''update refused'')
   \<and> fst (merge env_store_lost builder0 (SourceList [''geneinfo'', ''refseq'']) VNone 100
              (ledger [done_record])) = Some (External ''connection lost'')
   \<and> (\<exists>w'. merge env_exit builder0 (SourceList [''geneinfo'', ''refseq'']) VNone 100
              (ledger [done_record]) = (Some SystemExit, w')
         \<and> statuses w' = Some [VStr ''building'', VStr ''success''])"
proof (intro conjI)
  let ?w = "ledger [done_record]"
  let ?srcs = "[''geneinfo'', ''refseq'']"
  let ?w1 = "emit StartTimer ?w"
  have st: "self_stats builder0 = None"
    by (simp add: builder0_def)
  have n: "normalize_sources ev builder0 (SourceList ?srcs) ?w1 = (Inr ?srcs, ?w1)" for ev
    by (simp add: normalize_sources_def)
  have t: "bind_target_name ev VNone ?w1 = (None, ?w1)" for ev
    by (simp add: bind_target_name_def)
  {
    fix ev :: env and e :: error and r :: string
    assume m1: "fst (merge_try ev builder0 ?srcs 100 ?w1) = Some e"
      and c: "caught e" and rp: "repr ev e = r"
      and r1: "fst (register_status ev builder0 ''failed'' False False (Some [(''err'', VStr r)])
                     (emit (LogError (Traceback e)) (snd (merge_try ev builder0 ?srcs 100 ?w1))))
               = None"
    let ?w3 = "snd (merge_try ev builder0 ?srcs 100 ?w1)"
    let ?w4 = "snd (register_status ev builder0 ''failed'' False False (Some [(''err'', VStr r)])
                     (emit (LogError (Traceback e)) ?w3))"
    have m: "merge_try ev builder0 ?srcs 100 ?w1 = (Some e, ?w3)"
      using m1 by (simp add: prod_eq_iff)
    have rs: "register_status ev builder0 ''failed'' False False
                (Some [(''err'', VStr (repr ev e))]) (emit (LogError (Traceback e)) ?w3)
              = (None, ?w4)"
      using r1 by (simp add: prod_eq_iff rp)
    have pre: "self_stats builder0 = None
      \<and> normalize_sources ev builder0 (SourceList ?srcs) (emit StartTimer ?w) = (Inr ?srcs, ?w1)
      \<and> bind_target_name ev VNone ?w1 = (None, ?w1)
      \<and> merge_try ev builder0 ?srcs 100 ?w1 = (Some e, ?w3)
      \<and> caught e
      \<and> register_status ev builder0 ''failed'' False False
           (Some [(''err'', VStr (repr ev e))]) (emit (LogError (Traceback e)) ?w3) = (None, ?w4)"
      using st n t m c rs by (intro conjI)
    have "merge ev builder0 (SourceList ?srcs) VNone 100 ?w = (Some e, ?w4)
          \<and> (\<exists>h'. cfg_build ?w4 = Some h' \<and> h' \<noteq> []
                \<and> map_option butlast (cfg_build ?w3) = Some (butlast h')
                \<and> get_val (last h') ''status'' = VStr ''failed''
                \<and> get_val (last h') ''err'' = VStr (repr ev e))"
      by (rule mp [OF conjunct1 [OF conjunct2 [OF merge_registers_failure_and_reraises
            [of ev builder0 "SourceList ?srcs" ?w ?srcs ?w1 VNone ?w1 100 e ?w3 ?w4]]] pre])
    then have "\<exists>w' h'. merge ev builder0 (SourceList ?srcs) VNone 100 ?w = (Some e, w')
         \<and> cfg_build w' = Some h' \<and> h' \<noteq> []
         \<and> get_val (last h') ''status'' = VStr ''failed''
         \<and> get_val (last h') ''err'' = VStr r"
      unfolding rp by (elim conjE exE) (intro exI [of _ ?w4], auto)
  }
  note run = this
  show "\<exists>w' h'. merge env_interrupted builder0 (SourceList ?srcs) VNone 100 ?w
                   = (Some KeyboardInterrupt, w')
         \<and> cfg_build w' = Some h' \<and> h' \<noteq> []
         \<and> get_val (last h') ''status'' = VStr ''failed''
         \<and> get_val (last h') ''err'' = VStr ''KeyboardInterrupt()''"
  proof (rule run)
    show "fst (merge_try env_interrupted builder0 ?srcs 100 ?w1) = Some KeyboardInterrupt"
      by code_simp
    show "caught KeyboardInterrupt" by simp
    show "repr env_interrupted KeyboardInterrupt = ''KeyboardInterrupt()''"
      by (simp add: env_interrupted_def env0_def repr0_def)
    show "fst (register_status env_interrupted builder0 ''failed'' False False
                 (Some [(''err'', VStr ''KeyboardInterrupt()'')])
                 (emit (LogError (Traceback KeyboardInterrupt))
                    (snd (merge_try env_interrupted builder0 ?srcs 100 ?w1)))) = None"
      by code_simp
  qed
  show "\<exists>w' h'. merge env_push_fails builder0 (SourceList ?srcs) VNone 100 ?w
                   = (Some (External ''update refused''), w')
         \<and> cfg_build w' = Some h' \<and> h' \<noteq> []
         \<and> get_val (last h') ''status'' = VStr ''failed''
         \<and> get_val (last h') ''err'' = VStr ''update refused''"
  proof (rule run)
    show "fst (merge_try env_push_fails builder0 ?srcs 100 ?w1) = Some (External ''update refused'')"
      by code_simp
    show "caught (External ''update refused'')" by simp
    show "repr env_push_fails (External ''update refused'') = ''update refused''"
      by (simp add: env_push_fails_def env0_def repr0_def)
    show "fst (register_status env_push_fails builder0 ''failed'' False False
                 (Some [(''err'', VStr ''update refused'')])
                 (emit (LogError (Traceback (External ''update refused'')))
                    (snd (merge_try env_push_fails builder0 ?srcs 100 ?w1)))) = None"
      by code_simp
  qed
  show "fst (merge env_store_lost builder0 (SourceList ?srcs) VNone 100 ?w)
          = Some (External ''connection lost'')"
  proof -
    let ?ev = env_store_lost
    let ?e = KeyboardInterrupt
    let ?e' = "External ''connection lost''"
    let ?w3 = "snd (merge_try ?ev builder0 ?srcs 100 ?w1)"
    let ?reg = "register_status ?ev builder0 ''failed'' False False
                  (Some [(''err'', VStr (repr ?ev ?e))]) (emit (LogError (Traceback ?e)) ?w3)"
    have "fst (merge_try ?ev builder0 ?srcs 100 ?w1) = Some ?e"
      by code_simp
    then have m: "merge_try ?ev builder0 ?srcs 100 ?w1 = (Some ?e, ?w3)"
      by (simp add: prod_eq_iff)
    have "fst ?reg = Some ?e'"
      by code_simp
    then have rs: "?reg = (Some ?e', snd ?reg)"
      by (simp add: prod_eq_iff)
    have c: "caught ?e" by simp
    have pre: "self_stats builder0 = None
      \<and> normalize_sources ?ev builder0 (SourceList ?srcs) (emit StartTimer ?w) = (Inr ?srcs, ?w1)
      \<and> bind_target_name ?ev VNone ?w1 = (None, ?w1)
      \<and> merge_try ?ev builder0 ?srcs 100 ?w1 = (Some ?e, ?w3)
      \<and> caught ?e
      \<and> ?reg = (Some ?e', snd ?reg)"
      using st n t m c rs by (intro conjI)
    have "merge ?ev builder0 (SourceList ?srcs) VNone 100 ?w = (Some ?e', snd ?reg)"
      by (rule mp [OF conjunct1 [OF conjunct2 [OF conjunct2
            [OF merge_registers_failure_and_reraises
              [of ?ev builder0 "SourceList ?srcs" ?w ?srcs ?w1 VNone ?w1 100 ?e ?w3 "snd ?reg" ?e']]]]
            pre])
    then show ?thesis by simp
  qed
  show "\<exists>w'. merge env_exit builder0 (SourceList ?srcs) VNone 100 ?w = (Some SystemExit, w')
         \<and> statuses w' = Some [VStr ''building'', VStr ''success'']"
  proof -
    let ?ev = env_exit
    let ?e = SystemExit
    let ?w3 = "snd (merge_try ?ev builder0 ?srcs 100 ?w1)"
    have "fst (merge_try ?ev builder0 ?srcs 100 ?w1) = Some ?e"
      by code_simp
    then have m: "merge_try ?ev builder0 ?srcs 100 ?w1 = (Some ?e, ?w3)"
      by (simp add: prod_eq_iff)
    have c: "\<not> caught ?e" by simp
    have pre: "self_stats builder0 = None
      \<and> normalize_sources ?ev builder0 (SourceList ?srcs) (emit StartTimer ?w) = (Inr ?srcs, ?w1)
      \<and> bind_target_name ?ev VNone ?w1 = (None, ?w1)
      \<and> merge_try ?ev builder0 ?srcs 100 ?w1 = (Some ?e, ?w3)
      \<and> \<not> caught ?e"
      using st n t m c by (intro conjI)
    have mg: "merge ?ev builder0 (SourceList ?srcs) VNone 100 ?w = (Some ?e, ?w3)"
      by (rule mp [OF conjunct1 [OF conjunct2 [OF conjunct2 [OF conjunct2
            [OF merge_registers_failure_and_reraises
              [of ?ev builder0 "SourceList ?srcs" ?w ?srcs ?w1 VNone ?w1 100 ?e ?w3]]]]]
            pre])
    have s: "statuses ?w3 = Some [VStr ''building'', VStr ''success'']"
      by code_simp
    from mg s show ?thesis
      by (intro exI [of _ ?w3]) simp
  qed
qed

text \<open>
  The claim as stated is refuted by a target store whose \<^verbatim>\<open>drop\<close> fails: the caller sees
  the exception, and the history still holds only the finished run's \<^verbatim>\<open>success\<close> record.
\<close>

theorem merge_registers_failure_counterexample:
  "fst (merge env_drop_fails builder0 AllSources VNone 100 (ledger [done_record]))
     = Some (External ''drop failed'')
   \<and> statuses (snd (merge env_drop_fails builder0 AllSources VNone 100 (ledger [done_record])))
     = Some [VStr ''success'']"
  by code_simp

text \<open>
  Claim C5. The claim: whenever per-source statistics were computed, \<^verbatim>\<open>merge\<close> compares the
  target's count with their total and logs a mismatch as a warning, never raising. The
  \<^verbatim>\<open>finally\<close> block reads the attribute \<^verbatim>\<open>self._stats\<close>, which \<^verbatim>\<open>merge\<close> never assigns (its
  statistics are the local \<^verbatim>\<open>_stats\<close>): after a successful merge of two documents into a
  target that counts five, the target is not asked for its count and nothing is logged
  about it. When an earlier \<^verbatim>\<open>build_index2\<close> has left statistics in the attribute, the
  block looks up the keys \<^verbatim>\<open>total_documents\<close> and \<^verbatim>\<open>total_genes\<close>, which per-source statistics
  do not have, and the successful merge ends with a \<^verbatim>\<open>KeyError\<close> for the caller.
\<close>

theorem merge_validation_skipped_or_raises:
  "fst (merge env0 builder0 (SourceList [''geneinfo'', ''refseq'']) VNone 100 (ledger [done_record]))
     = None
   \<and> map_option (\<lambda>h. get_val (last h) ''stats'')
        (cfg_build (snd (merge env0 builder0 (SourceList [''geneinfo'', ''refseq'']) VNone 100
                           (ledger [done_record]))))
     = Some (VStats [(''total_refseq'', 1), (''total_geneinfo'', 1)])
   \<and> target_count env0 [] = Inr 5
   \<and> Count \<notin> set (trace (snd (merge env0 builder0 (SourceList [''geneinfo'', ''refseq'']) VNone
                                   100 (ledger [done_record]))))
   \<and> LogInfo Validating
       \<notin> set (trace (snd (merge env0 builder0 (SourceList [''geneinfo'', ''refseq'']) VNone
                              100 (ledger [done_record]))))
   \<and> fst (merge env0 builder_stale_stats (SourceList [''geneinfo'', ''refseq'']) VNone 100
            (ledger [done_record]))
     = Some (KeyError ''total_documents'')"
  by code_simp

section \<open>Properties of the lineage graph\<close>

lemma edges_add_node [simp]: "edges (add_node n c) = edges c"
  by (simp add: add_node_def)

lemma set_edges_add: "set (edges (add a b c)) = insert (a, b) (set (edges c))"
  by (auto simp: add_def add_edge_def Let_def)

lemma set_edges_fold_add:
  "set (edges (fold (\<lambda>p acc. add (fst p) (snd p) acc) ps c)) = set (edges c) \<union> set ps"
  by (induction ps arbitrary: c) (auto simp: set_edges_add)

lemma gen_chain_subset:
  "set (fst (gen_chain gs)) \<subseteq> (\<Union>g \<in> set gs. set (fst g))"
  by (induction gs rule: gen_chain.induct) auto

lemma gen_chain_complete:
  "snd (gen_chain gs) = None \<Longrightarrow> set (fst (gen_chain gs)) = (\<Union>g \<in> set gs. set (fst g))"
  by (induction gs rule: gen_chain.induct) auto

text \<open>
  Claim C9, as amended. The claim as stated fails: \<^verbatim>\<open>__iadd__\<close> iterates the right operand,
  and the iteration yields (root, leaf) pairs, not edges. What holds: combining with an
  object that is not a \<^verbatim>\<open>RecChain\<close> raises \<^verbatim>\<open>TypeError\<close> and leaves the left operand as it
  was; combining with a \<^verbatim>\<open>RecChain\<close> \<open>d\<close> keeps the left operand's edges and adds exactly
  one edge for each pair the iteration of \<open>d\<close> yields, each pair joining a root node of
  \<open>d\<close> (in-degree 0, out-degree 1) to a leaf found from it; when the iteration ends
  without an exception these are all such pairs.
\<close>

theorem iadd_adds_root_leaf_pairs:
  "iadd depth c NotRecChain = (c, Some TypeError)
   \<and> set (edges (fst (iadd depth c (IsRecChain d)))) = set (edges c) \<union> set (fst (iter depth d))
   \<and> snd (iadd depth c (IsRecChain d)) = snd (iter depth d)
   \<and> set (fst (iter depth d))
        \<subseteq> {(r, l). r \<in> set (root_nodes d) \<and> l \<in> set (fst (find_leaf depth d r))}
   \<and> (snd (iter depth d) = None \<longrightarrow>
        set (fst (iter depth d))
          = {(r, l). r \<in> set (root_nodes d) \<and> l \<in> set (fst (find_leaf depth d r))})"
proof (intro conjI impI)
  show "iadd depth c NotRecChain = (c, Some TypeError)"
    by (simp add: iadd_def)
  show "set (edges (fst (iadd depth c (IsRecChain d)))) = set (edges c) \<union> set (fst (iter depth d))"
    by (simp add: iadd_def set_edges_fold_add)
  show "snd (iadd depth c (IsRecChain d)) = snd (iter depth d)"
    by (simp add: iadd_def)
  let ?gs = "map (\<lambda>r. (map (Pair r) (fst (find_leaf depth d r)), snd (find_leaf depth d r)))
                 (root_nodes d)"
  have all: "(\<Union>g \<in> set ?gs. set (fst g))
           = {(r, l). r \<in> set (root_nodes d) \<and> l \<in> set (fst (find_leaf depth d r))}"
    by auto
  show "set (fst (iter depth d))
        \<subseteq> {(r, l). r \<in> set (root_nodes d) \<and> l \<in> set (fst (find_leaf depth d r))}"
    using gen_chain_subset [of ?gs] unfolding all by (simp add: iter_def)
  assume "snd (iter depth d) = None"
  then have "snd (gen_chain ?gs) = None" by (simp add: iter_def)
  from gen_chain_complete [OF this]
  show "set (fst (iter depth d))
          = {(r, l). r \<in> set (root_nodes d) \<and> l \<in> set (fst (find_leaf depth d r))}"
    unfolding all by (simp add: iter_def)
qed

text \<open>
  Combining the empty chain with the chain 1-2, 2-3 gives the single edge from the root 1
  to the leaf 3; combining with something that is no chain raises \<^verbatim>\<open>TypeError\<close>.
\<close>

theorem iadd_adds_root_leaf_pairs_witness:
  "set (edges (fst (iadd 100 empty_chain (IsRecChain two_step_chain)))) = {(IInt 1, IInt 3)}
   \<and> snd (iadd 100 empty_chain (IsRecChain two_step_chain)) = None
   \<and> iadd 100 empty_chain NotRecChain = (empty_chain, Some TypeError)"
proof -
  have i: "iter 100 two_step_chain = ([(IInt 1, IInt 3)], None)"
    by code_simp
  show ?thesis
    using iadd_adds_root_leaf_pairs [of 100 empty_chain two_step_chain]
    by (simp add: i empty_chain_def)
qed

text \<open>
  The claim as stated is refuted by the chain 1-2, 2-3: after the union with it, its edges
  are not among the edges of the left operand.
\<close>

theorem iadd_superset_counterexample:
  "\<not> set (edges two_step_chain)
       \<subseteq> set (edges (fst (iadd 100 empty_chain (IsRecChain two_step_chain))))"
  by code_simp

text \<open>
  Claim C10. The claim: for a node \<open>from_id\<close>, \<^verbatim>\<open>lookup(from_id, to_id)\<close> is true exactly when
  \<open>to_id\<close> is among the leaves \<^verbatim>\<open>find_leaf(from_id)\<close> finds. \<^verbatim>\<open>lookup\<close> hands its first argument
  to \<^verbatim>\<open>find_left\<close>, which iterates over it as a collection of identifiers: on the chain of
  the repository's test, whose identifiers are integers, \<^verbatim>\<open>find_leaf(1)\<close> finds 4 and 5 but
  \<^verbatim>\<open>lookup(1, 4)\<close> raises \<^verbatim>\<open>TypeError\<close>.
\<close>

theorem lookup_iterates_its_first_argument:
  "find_leaf 100 test_chain (IInt 1) = ([IInt 4, IInt 5], None)
   \<and> IInt 1 \<in> set (nodes test_chain)
   \<and> lookup 100 test_chain (IInt 1) (IInt 4) = Inl TypeError"
  by code_simp

end
